theory Spec2Isabelle
  imports
    Main
    "HOL-Library.Char_ord"
    "HOL-Library.List_Lexorder"
    "HOL-Library.Product_Lexorder"
    "HOL-Library.Multiset"
begin

section \<open>Constants\<close>

text \<open>
  The action keeps three constants at the top of the file: the bound on attempts, the
  unit of the linear backoff in milliseconds, and the set of PostgreSQL error codes that
  are taken as concurrency conflicts.
\<close>

definition MAX_RETRIES :: nat where
  "MAX_RETRIES = 3"

definition RETRY_DELAY :: nat where
  "RETRY_DELAY = 1000"

definition RETRY_ERROR_CODES :: "string list" where
  "RETRY_ERROR_CODES = [''55P03'', ''40P01'', ''57014'']"

section \<open>Values read from JSON\<close>

text \<open>
  \<open>JSON.parse\<close> is a builtin; the model takes it as a parameter that maps the input text
  to the parsed value, or to the message of the \<open>SyntaxError\<close> it throws. The parsed
  values are the JSON values. A number is kept as the text JavaScript prints for it (for
  \<open>1.5\<close> the text \<open>1.5\<close>, for \<open>1e21\<close> the text \<open>1e+21\<close>): the code does nothing with a
  number but print it. The entries of an object are kept in the order \<open>Object.entries\<close>
  enumerates them.
\<close>

datatype json =
    JNull
  | JBool bool
  | JNum string
  | JStr string
  | JArr "json list"
  | JObj "(string \<times> json) list"

fun join :: "string \<Rightarrow> string list \<Rightarrow> string" where
  "join sep [] = []"
| "join sep [x] = x"
| "join sep (x # y # ys) = x @ sep @ join sep (y # ys)"

definition digit_char :: "nat \<Rightarrow> char" where
  "digit_char d = ''0123456789'' ! (d mod 10)"

function show_nat :: "nat \<Rightarrow> string" where
  "show_nat n = (if n < 10 then [digit_char n] else show_nat (n div 10) @ [digit_char (n mod 10)])"
  by pat_completeness auto
termination
  by (relation "measure id") auto

definition show_int :: "int \<Rightarrow> string" where
  "show_int i = (if i < 0 then CHR ''-'' # show_nat (nat (- i)) else show_nat (nat i))"

text \<open>
  A list of results is a list of values unless one of them is an error; the first error
  is the one thrown.
\<close>

fun collect :: "(string + 'a) list \<Rightarrow> string + 'a list" where
  "collect [] = Inr []"
| "collect (Inl msg # rs) = Inl msg"
| "collect (Inr x # rs) = (case collect rs of Inl msg \<Rightarrow> Inl msg | Inr xs \<Rightarrow> Inr (x # xs))"

definition not_primitive :: string where
  "not_primitive = ''Cannot convert object to primitive value''"

text \<open>
  The conversion a template literal applies to a value; \<open>Inl\<close> is the message of the
  \<open>TypeError\<close> it throws. An array prints its elements joined by commas (a \<open>null\<close> element
  prints as nothing). An object prints as \<open>[object Object]\<close> through the \<open>toString\<close> it
  inherits, unless it has a property \<open>toString\<close> of its own: a value read from JSON is
  never callable, and the inherited \<open>valueOf\<close> returns the object, so the conversion
  throws.
\<close>

fun toString :: "json \<Rightarrow> string + string" where
  "toString JNull = Inr ''null''"
| "toString (JBool b) = Inr (if b then ''true'' else ''false'')"
| "toString (JNum t) = Inr t"
| "toString (JStr s) = Inr s"
| "toString (JArr xs) =
     (case collect (map (\<lambda>x. if x = JNull then Inr [] else toString x) xs) of
        Inl msg \<Rightarrow> Inl msg
      | Inr ts \<Rightarrow> Inr (join '','' ts))"
| "toString (JObj kvs) =
     (if ''toString'' \<in> set (map fst kvs) then Inl not_primitive else Inr ''[object Object]'')"

text \<open>
  \<open>Object.entries\<close> throws a \<open>TypeError\<close> on \<open>null\<close>, has no entry for a number or a
  boolean, and enumerates the indices of a string or an array.
\<close>

definition Object_entries :: "json \<Rightarrow> string + (string \<times> json) list" where
  "Object_entries v =
     (case v of
        JNull \<Rightarrow> Inl ''Cannot convert undefined or null to object''
      | JBool b \<Rightarrow> Inr []
      | JNum n \<Rightarrow> Inr []
      | JStr s \<Rightarrow> Inr (zip (map show_nat [0..<length s]) (map (\<lambda>c. JStr [c]) s))
      | JArr xs \<Rightarrow> Inr (zip (map show_nat [0..<length xs]) xs)
      | JObj kvs \<Rightarrow> Inr kvs)"

section \<open>The source key: generateSource\<close>

record pull_request =
  number :: int
  head_sha :: string

record gh_context =
  workflow :: string
  job :: string
  runId :: int
  repo_owner :: string
  repo_repo :: string
  payload_pull_request :: "pull_request option"

text \<open>
  The chain \<open>Object.entries(matrix).map(...).sort().join(',')\<close>. The callback of \<open>map\<close>
  converts the value of every entry and throws what the conversion throws. The default
  \<open>sort\<close> of JavaScript orders strings by their code units; here strings are ordered by
  their characters, lexicographically.
\<close>

definition entry_text :: "string \<times> json \<Rightarrow> string + string" where
  "entry_text kv =
     (case toString (snd kv) of
        Inl msg \<Rightarrow> Inl msg
      | Inr t \<Rightarrow> Inr (fst kv @ ''='' @ t))"

definition matrix_params :: "json \<Rightarrow> string + string" where
  "matrix_params matrix =
     (case Object_entries matrix of
        Inl msg \<Rightarrow> Inl msg
      | Inr entries \<Rightarrow>
          (case collect (map entry_text entries) of
             Inl msg \<Rightarrow> Inl msg
           | Inr texts \<Rightarrow> Inr (join '','' (sort texts))))"

text \<open>
  \<open>generateSource\<close> returns the key and the warnings it passed to \<open>core.warning\<close>. The
  matrix input is \<open>None\<close> when it is undefined; the empty string is falsy as well.
  \<open>JSON.parse\<close>, \<open>Object.entries\<close> and the conversions of the values all run inside the
  \<open>try\<close>, so what any of them throws ends in the \<open>catch\<close>, which leaves \<open>matrixParams\<close>
  empty. The statements outside the \<open>try\<close> read two strings of the context and build the
  key from strings; none of them throws.
\<close>

definition parse_warning :: "string \<Rightarrow> string" where
  "parse_warning msg = ''Failed to parse matrix input: '' @ msg"

definition try_matrix_params :: "(string \<Rightarrow> string + json) \<Rightarrow> string \<Rightarrow> string + string" where
  "try_matrix_params JSON_parse matrixInput =
     (case JSON_parse matrixInput of
        Inl msg \<Rightarrow> Inl msg
      | Inr matrix \<Rightarrow> matrix_params matrix)"

definition generateSource ::
  "(string \<Rightarrow> string + json) \<Rightarrow> gh_context \<Rightarrow> string option \<Rightarrow> string \<times> string list" where
  "generateSource JSON_parse ctx matrixInput =
     (let (matrixParams, warnings) =
            (case matrixInput of
               None \<Rightarrow> ([], [])
             | Some s \<Rightarrow>
                 if s = [] then ([], [])
                 else (case try_matrix_params JSON_parse s of
                         Inl msg \<Rightarrow> ([], [parse_warning msg])
                       | Inr ps \<Rightarrow> (ps, [])))
      in (if matrixParams \<noteq> []
          then workflow ctx @ ''/'' @ job ctx @ ''('' @ matrixParams @ '')''
          else workflow ctx @ ''/'' @ job ctx,
          warnings))"

section \<open>The table and the resolve query\<close>

text \<open>
  A row of \<open>pr_comments\<close>. The key column \<open>id\<close> is named \<open>row_id\<close> here. The columns are taken
  as not null, \<open>run_id\<close> and \<open>run_attempt\<close> as integers, \<open>created_at\<close> as a point in time
  counted in integer units.
\<close>

record pr_comment =
  row_id :: nat
  pr_number :: int
  commit_sha :: string
  message :: string
  created_at :: int
  source :: string
  run_id :: int
  run_attempt :: int

text \<open>
  \<open>SELECT DISTINCT ON (source) ... ORDER BY source, run_id DESC, run_attempt DESC\<close> sorts the
  selected rows and keeps the first row of every run of equal \<open>source\<close>. Which row comes
  first among rows that agree on all three sort columns is left open by the engine; the
  model keeps them in the order of the table (a stable sort).
\<close>

fun distinct_on_source :: "pr_comment list \<Rightarrow> pr_comment list" where
  "distinct_on_source [] = []"
| "distinct_on_source [r] = [r]"
| "distinct_on_source (r # r' # rs) =
     (if source r = source r' then distinct_on_source (r # rs)
      else r # distinct_on_source (r' # rs))"

definition where_clause :: "int \<Rightarrow> string \<Rightarrow> pr_comment list \<Rightarrow> pr_comment list" where
  "where_clause prNumber commitSha table =
     filter (\<lambda>r. pr_number r = prNumber \<and> commit_sha r = commitSha) table"

definition order_key :: "pr_comment \<Rightarrow> string \<times> int \<times> int" where
  "order_key r = (source r, - run_id r, - run_attempt r)"

definition latest_runs :: "int \<Rightarrow> string \<Rightarrow> pr_comment list \<Rightarrow> pr_comment list" where
  "latest_runs prNumber commitSha table =
     distinct_on_source (sort_key order_key (where_clause prNumber commitSha table))"

definition select_latest :: "int \<Rightarrow> string \<Rightarrow> pr_comment list \<Rightarrow> pr_comment list" where
  "select_latest prNumber commitSha table =
     sort_key created_at (latest_runs prNumber commitSha table)"

section \<open>Errors, comments and the trace of calls\<close>

text \<open>
  A thrown value, with the three properties the retry loop reads: \<open>error.status\<close> (set on
  errors of the GitHub client), \<open>error.code\<close> (set on errors of the database client) and
  \<open>error.message\<close>. A property that is undefined is \<open>None\<close>.
\<close>

record js_error =
  status :: "nat option"
  code :: "string option"
  err_message :: string

text \<open>A comment as \<open>listComments\<close> returns it: \<open>id\<close>, \<open>user.type\<close> and \<open>body\<close>.\<close>

record gh_comment =
  comment_id :: nat
  user_type :: string
  body :: string

text \<open>
  The calls that leave the process, in the order they are made. The calls of \<open>core.info\<close>
  and \<open>core.error\<close> only write to the log and are not recorded; \<open>core.warning\<close> is.
\<close>

datatype sql_statement = SQL_BEGIN | SQL_INSERT | SQL_SELECT | SQL_COMMIT | SQL_ROLLBACK

datatype event =
    Warning string
  | ClientConnect
  | ClientQuery sql_statement
  | ClientEnd
  | ListComments int
  | UpdateComment nat string
  | CreateComment int string
  | Sleep nat

text \<open>
  What the collaborators answer during one attempt: for every call, the error it throws
  (\<open>None\<close> when it succeeds), the timestamp and the key the server gives the inserted
  row, and the page of comments \<open>listComments\<close> returns. \<open>end_err\<close> belongs to the call of
  \<open>client.end()\<close> after \<open>COMMIT\<close>, \<open>finally_end_err\<close> to the one in the \<open>finally\<close> block.
\<close>

record outcomes =
  connect_err :: "js_error option"
  begin_err :: "js_error option"
  insert_err :: "js_error option"
  new_id :: nat
  now :: int
  select_err :: "js_error option"
  list_result :: "js_error + gh_comment list"
  write_err :: "js_error option"
  commit_err :: "js_error option"
  end_err :: "js_error option"
  rollback_err :: "js_error option"
  finally_end_err :: "js_error option"

record params =
  params_context :: gh_context
  params_message :: string
  params_matrix :: "string option"
  env_GITHUB_RUN_ATTEMPT :: int

datatype completion = Returned | Thrown js_error

section \<open>The merged document and the choice of the comment\<close>

definition newline :: string where
  "newline = [CHR 0x0A]"

text \<open>
  The conversion of \<open>created_at\<close> to text goes through \<open>Date\<close> and is a parameter,
  \<open>timestamp\<close>.
\<close>

definition details_section :: "(int \<Rightarrow> string) \<Rightarrow> pr_comment \<Rightarrow> string" where
  "details_section timestamp n =
     join newline
       [''<details>'',
        ''<summary>Message from '' @ timestamp (created_at n) @ '' ('' @ source n @ '')</summary>'',
        [],
        ''Run ID: '' @ show_int (run_id n) @ '', Attempt: '' @ show_int (run_attempt n),
        [],
        message n,
        ''</details>'']"

definition combinedMessage :: "(int \<Rightarrow> string) \<Rightarrow> string \<Rightarrow> pr_comment list \<Rightarrow> string" where
  "combinedMessage timestamp commitSha comments =
     join newline
       [''### Automated Workflow Results for commit '' @ commitSha,
        [],
        join (newline @ newline) (map (details_section timestamp) comments)]"

fun startsWith :: "string \<Rightarrow> string \<Rightarrow> bool" where
  "startsWith s [] = True"
| "startsWith [] (m # ms) = False"
| "startsWith (c # cs) (m # ms) = (c = m \<and> startsWith cs ms)"

fun String_includes :: "string \<Rightarrow> string \<Rightarrow> bool" where
  "String_includes [] m = (m = [])"
| "String_includes (c # cs) m = (startsWith (c # cs) m \<or> String_includes cs m)"

definition is_botComment :: "gh_comment \<Rightarrow> bool" where
  "is_botComment comment =
     (user_type comment = ''Bot'' \<and>
      String_includes (body comment) ''Automated Workflow Results for commit'')"

definition botComment :: "gh_comment list \<Rightarrow> gh_comment option" where
  "botComment prComments = find is_botComment prComments"

section \<open>One attempt\<close>

definition inserted_row :: "params \<Rightarrow> pull_request \<Rightarrow> string \<Rightarrow> outcomes \<Rightarrow> pr_comment" where
  "inserted_row p pr src oc =
     \<lparr>row_id = new_id oc, pr_number = number pr, commit_sha = head_sha pr,
      message = params_message p, created_at = now oc, source = src,
      run_id = runId (params_context p), run_attempt = env_GITHUB_RUN_ATTEMPT p\<rparr>"

text \<open>
  The rows the \<open>SELECT\<close> returns after the \<open>INSERT\<close> of the same transaction: the
  resolve query over the table with the inserted row.
\<close>

definition append_resolve ::
  "params \<Rightarrow> pull_request \<Rightarrow> string \<Rightarrow> outcomes \<Rightarrow> pr_comment list \<Rightarrow> pr_comment list" where
  "append_resolve p pr src oc table =
     select_latest (number pr) (head_sha pr) (table @ [inserted_row p pr src oc])"

definition write_call :: "int \<Rightarrow> string \<Rightarrow> gh_comment list \<Rightarrow> event" where
  "write_call prNumber document prComments =
     (case botComment prComments of
        Some c \<Rightarrow> UpdateComment (comment_id c) document
      | None \<Rightarrow> CreateComment prNumber document)"

text \<open>
  The inner \<open>try\<close> block, from \<open>BEGIN\<close> to the \<open>return\<close>. It gives the error thrown (\<open>None\<close>
  when the \<open>return\<close> is reached), the committed rows of the table afterwards, and the calls
  made. The inserted row is visible to the \<open>SELECT\<close> of the same transaction; it joins the
  committed rows when \<open>COMMIT\<close> succeeds.
\<close>

definition transaction ::
  "(int \<Rightarrow> string) \<Rightarrow> params \<Rightarrow> pull_request \<Rightarrow> string \<Rightarrow> outcomes \<Rightarrow> pr_comment list
     \<Rightarrow> js_error option \<times> pr_comment list \<times> event list" where
  "transaction timestamp p pr src oc table =
     (case begin_err oc of
        Some e \<Rightarrow> (Some e, table, [ClientQuery SQL_BEGIN])
      | None \<Rightarrow>
     (case insert_err oc of
        Some e \<Rightarrow> (Some e, table, [ClientQuery SQL_BEGIN, ClientQuery SQL_INSERT])
      | None \<Rightarrow>
     (case select_err oc of
        Some e \<Rightarrow>
          (Some e, table, [ClientQuery SQL_BEGIN, ClientQuery SQL_INSERT, ClientQuery SQL_SELECT])
      | None \<Rightarrow>
     (let comments = append_resolve p pr src oc table;
          document = combinedMessage timestamp (head_sha pr) comments;
          queries = [ClientQuery SQL_BEGIN, ClientQuery SQL_INSERT, ClientQuery SQL_SELECT,
                     ListComments (number pr)]
      in
     (case list_result oc of
        Inl e \<Rightarrow> (Some e, table, queries)
      | Inr prComments \<Rightarrow>
     (let calls = queries @ [write_call (number pr) document prComments] in
     (case write_err oc of
        Some e \<Rightarrow> (Some e, table, calls)
      | None \<Rightarrow>
     (case commit_err oc of
        Some e \<Rightarrow> (Some e, table, calls @ [ClientQuery SQL_COMMIT])
      | None \<Rightarrow>
     (case end_err oc of
        Some e \<Rightarrow>
          (Some e, table @ [inserted_row p pr src oc], calls @ [ClientQuery SQL_COMMIT, ClientEnd])
      | None \<Rightarrow>
          (None, table @ [inserted_row p pr src oc],
           calls @ [ClientQuery SQL_COMMIT, ClientEnd]))))))))))"

text \<open>
  The \<open>catch\<close> of the inner \<open>try\<close> sends \<open>ROLLBACK\<close> and throws the error again, unless
  \<open>ROLLBACK\<close> throws itself.
\<close>

definition inner_catch :: "outcomes \<Rightarrow> js_error option \<times> event list \<Rightarrow> js_error option \<times> event list" where
  "inner_catch oc r =
     (case fst r of
        None \<Rightarrow> r
      | Some e \<Rightarrow>
          (case rollback_err oc of
             Some e' \<Rightarrow> (Some e', snd r @ [ClientQuery SQL_ROLLBACK])
           | None \<Rightarrow> (Some e, snd r @ [ClientQuery SQL_ROLLBACK])))"

text \<open>
  The \<open>finally\<close> block ends the client on every way out of the inner \<open>try\<close>, after the
  \<open>return\<close> as well; what it throws replaces the completion so far.
\<close>

definition inner_finally :: "outcomes \<Rightarrow> js_error option \<times> event list \<Rightarrow> js_error option \<times> event list" where
  "inner_finally oc r =
     (case finally_end_err oc of
        Some e \<Rightarrow> (Some e, snd r @ [ClientEnd])
      | None \<Rightarrow> (fst r, snd r @ [ClientEnd]))"

text \<open>
  The body of the outer \<open>try\<close>: \<open>client.connect()\<close> stands before the inner \<open>try\<close>, so an
  error of it reaches the outer \<open>catch\<close> with neither \<open>ROLLBACK\<close> nor \<open>client.end()\<close>.
\<close>

definition attempt_body ::
  "(int \<Rightarrow> string) \<Rightarrow> params \<Rightarrow> pull_request \<Rightarrow> string \<Rightarrow> outcomes \<Rightarrow> pr_comment list
     \<Rightarrow> js_error option \<times> pr_comment list \<times> event list" where
  "attempt_body timestamp p pr src oc table =
     (case connect_err oc of
        Some e \<Rightarrow> (Some e, table, [ClientConnect])
      | None \<Rightarrow>
          (case transaction timestamp p pr src oc table of
             (r, table', calls) \<Rightarrow>
               (case inner_finally oc (inner_catch oc (r, calls)) of
                  (r', calls') \<Rightarrow> (r', table', ClientConnect # calls'))))"

section \<open>The retry loop: processWithRetry\<close>

definition status_truthy :: "js_error \<Rightarrow> bool" where
  "status_truthy e = (case status e of None \<Rightarrow> False | Some n \<Rightarrow> n \<noteq> 0)"

definition is_retry_code :: "js_error \<Rightarrow> bool" where
  "is_retry_code e = (case code e of None \<Rightarrow> False | Some c \<Rightarrow> c \<in> set RETRY_ERROR_CODES)"

definition retries_failed :: js_error where
  "retries_failed = \<lparr>status = None, code = None, err_message = ''Failed after 3 attempts''\<rparr>"

text \<open>
  The \<open>for\<close> loop from the attempt \<open>attempt\<close> on. \<open>ocs n\<close> are the answers of the
  collaborators during attempt \<open>n\<close>. The outer \<open>catch\<close> first throws an error with a truthy
  \<open>status\<close> again; then, for a code of \<open>RETRY_ERROR_CODES\<close>, it sleeps and continues unless
  the attempt was the last; in every other case it throws the error again. The statement
  after the loop throws the error \<open>Failed after 3 attempts\<close>.
\<close>

function for_loop ::
  "(int \<Rightarrow> string) \<Rightarrow> params \<Rightarrow> pull_request \<Rightarrow> string \<Rightarrow> (nat \<Rightarrow> outcomes) \<Rightarrow> nat
     \<Rightarrow> pr_comment list \<Rightarrow> completion \<times> pr_comment list \<times> event list" where
  "for_loop timestamp p pr src ocs attempt table =
     (if attempt \<le> MAX_RETRIES then
        (case attempt_body timestamp p pr src (ocs attempt) table of
           (None, table', calls) \<Rightarrow> (Returned, table', calls)
         | (Some error, table', calls) \<Rightarrow>
             if status_truthy error then (Thrown error, table', calls)
             else if is_retry_code error \<and> attempt \<noteq> MAX_RETRIES then
               (case for_loop timestamp p pr src ocs (attempt + 1) table' of
                  (c, table'', calls') \<Rightarrow>
                    (c, table'', calls @ [Sleep (RETRY_DELAY * attempt)] @ calls'))
             else (Thrown error, table', calls))
      else (Thrown retries_failed, table, []))"
  by pat_completeness auto
termination
  by (relation "measure (\<lambda>(timestamp, p, pr, src, ocs, attempt, table). MAX_RETRIES + 1 - attempt)")
    auto

declare for_loop.simps [simp del]

definition pull_request_undefined :: js_error where
  "pull_request_undefined =
     \<lparr>status = None, code = None,
      err_message =
        ''Cannot read properties of undefined (reading '' @ [CHR 0x27] @ ''number'' @
        [CHR 0x27] @ '')''\<rparr>"

text \<open>
  \<open>processWithRetry\<close>: the pull request is read from the payload first (a \<open>TypeError\<close> when
  the payload has none), then the source key is generated once, then the loop starts at
  attempt 1.
\<close>

definition processWithRetry ::
  "(string \<Rightarrow> string + json) \<Rightarrow> (int \<Rightarrow> string) \<Rightarrow> params \<Rightarrow> (nat \<Rightarrow> outcomes)
     \<Rightarrow> pr_comment list \<Rightarrow> completion \<times> pr_comment list \<times> event list" where
  "processWithRetry JSON_parse timestamp p ocs table =
     (case payload_pull_request (params_context p) of
        None \<Rightarrow> (Thrown pull_request_undefined, table, [])
      | Some pr \<Rightarrow>
          (case generateSource JSON_parse (params_context p) (params_matrix p) of
             (src, warnings) \<Rightarrow>
               (case for_loop timestamp p pr src ocs 1 table of
                  (c, table', calls) \<Rightarrow> (c, table', map Warning warnings @ calls))))"

section \<open>The older variant of the retry loop\<close>

text \<open>
  The file \<open>src/index.js\<close> holds an older \<open>processWithRetry\<close>, which has no source key
  and calls itself for the next attempt. Its \<open>catch\<close> logs by code and then, whatever
  the error, sleeps and retries while \<open>attempt < MAX_RETRIES\<close>; otherwise it throws the
  error. Only this loop is modelled: \<open>thrown n\<close> is the error that leaves the transaction
  of attempt \<open>n\<close>, and the trace records the sleeps.
\<close>

function processWithRetry_legacy :: "(nat \<Rightarrow> js_error option) \<Rightarrow> nat \<Rightarrow> completion \<times> event list" where
  "processWithRetry_legacy thrown attempt =
     (case thrown attempt of
        None \<Rightarrow> (Returned, [])
      | Some error \<Rightarrow>
          if attempt < MAX_RETRIES then
            (case processWithRetry_legacy thrown (attempt + 1) of
               (c, calls) \<Rightarrow> (c, Sleep (RETRY_DELAY * attempt) # calls))
          else (Thrown error, []))"
  by pat_completeness auto
termination
  by (relation "measure (\<lambda>(thrown, attempt). MAX_RETRIES - attempt)") auto

declare processWithRetry_legacy.simps [simp del]

section \<open>Observations on a trace\<close>

text \<open>
  Every attempt starts with one call of \<open>client.connect()\<close>, so the attempts made are
  counted by these calls; the connection is released by \<open>client.end()\<close>.
\<close>

definition attempts_made :: "event list \<Rightarrow> nat" where
  "attempts_made calls = count_list calls ClientConnect"

definition releases :: "event list \<Rightarrow> nat" where
  "releases calls = count_list calls ClientEnd"

fun sleeps :: "event list \<Rightarrow> nat list" where
  "sleeps [] = []"
| "sleeps (Sleep ms # calls) = ms # sleeps calls"
| "sleeps (c # calls) = sleeps calls"

section \<open>Example inputs\<close>

text \<open>
  Matrix inputs: the object \<open>{"b":2,"a":1}\<close>, the same object with the entries in the
  other order, and an object whose value under \<open>a\<close> has a property \<open>toString\<close>.
\<close>

definition quoted :: "string \<Rightarrow> string" where
  "quoted s = CHR 0x22 # s @ [CHR 0x22]"

definition matrix_ba :: string where
  "matrix_ba = ''{'' @ quoted ''b'' @ '':2,'' @ quoted ''a'' @ '':1}''"

definition matrix_ab :: string where
  "matrix_ab = ''{'' @ quoted ''a'' @ '':1,'' @ quoted ''b'' @ '':2}''"

definition matrix_own_toString :: string where
  "matrix_own_toString = ''{'' @ quoted ''a'' @ '':{'' @ quoted ''toString'' @ '':1}}''"

text \<open>A stand-in for \<open>JSON.parse\<close> on the few inputs of the examples.\<close>

definition parse_fixture :: "string \<Rightarrow> string + json" where
  "parse_fixture s =
     (if s = matrix_ba then Inr (JObj [(''b'', JNum ''2''), (''a'', JNum ''1'')])
      else if s = matrix_ab then Inr (JObj [(''a'', JNum ''1''), (''b'', JNum ''2'')])
      else if s = matrix_own_toString then Inr (JObj [(''a'', JObj [(''toString'', JNum ''1'')])])
      else if s = ''null'' then Inr JNull
      else Inl ''Unexpected token'')"

definition ctx_fixture :: gh_context where
  "ctx_fixture =
     \<lparr>workflow = ''ci'', job = ''test'', runId = 10, repo_owner = ''o'', repo_repo = ''r'',
      payload_pull_request = Some \<lparr>number = 7, head_sha = ''abc123''\<rparr>\<rparr>"

definition pr_fixture :: pull_request where
  "pr_fixture = \<lparr>number = 7, head_sha = ''abc123''\<rparr>"

definition params_fixture :: params where
  "params_fixture =
     \<lparr>params_context = ctx_fixture, params_message = ''build ok'', params_matrix = None,
      env_GITHUB_RUN_ATTEMPT = 1\<rparr>"

definition timestamp_fixture :: "int \<Rightarrow> string" where
  "timestamp_fixture t = show_int t"






text \<open>
  Errors: a lock timeout of the database, a syntax error of the database, an error of the
  GitHub client, and an error that carries a \<open>status\<close> together with the code of a lock
  timeout.
\<close>

definition lock_error :: js_error where
  "lock_error = \<lparr>status = None, code = Some ''55P03'', err_message = ''lock timeout''\<rparr>"

definition syntax_error :: js_error where
  "syntax_error = \<lparr>status = None, code = Some ''42601'', err_message = ''syntax error''\<rparr>"

definition api_error :: js_error where
  "api_error = \<lparr>status = Some 500, code = None, err_message = ''Server Error''\<rparr>"

definition api_error_with_code :: js_error where
  "api_error_with_code =
     \<lparr>status = Some 500, code = Some ''55P03'', err_message = ''Server Error''\<rparr>"

definition all_succeed :: outcomes where
  "all_succeed =
     \<lparr>connect_err = None, begin_err = None, insert_err = None, new_id = 1, now = 100,
      select_err = None, list_result = Inr [], write_err = None, commit_err = None,
      end_err = None, rollback_err = None, finally_end_err = None\<rparr>"

definition always_ok :: "nat \<Rightarrow> outcomes" where
  "always_ok n = all_succeed"

definition always_locked :: "nat \<Rightarrow> outcomes" where
  "always_locked n = all_succeed\<lparr>begin_err := Some lock_error\<rparr>"

definition locked_once :: "nat \<Rightarrow> outcomes" where
  "locked_once n = (if n = 1 then all_succeed\<lparr>begin_err := Some lock_error\<rparr> else all_succeed)"

definition syntax_fails :: "nat \<Rightarrow> outcomes" where
  "syntax_fails n = all_succeed\<lparr>insert_err := Some syntax_error\<rparr>"

definition list_fails_once :: outcomes where
  "list_fails_once = all_succeed\<lparr>list_result := Inl api_error\<rparr>"

definition list_fails :: "nat \<Rightarrow> outcomes" where
  "list_fails n = list_fails_once"

definition list_fails_with_code :: "nat \<Rightarrow> outcomes" where
  "list_fails_with_code n = all_succeed\<lparr>list_result := Inl api_error_with_code\<rparr>"

definition connect_fails :: "nat \<Rightarrow> outcomes" where
  "connect_fails n = all_succeed\<lparr>connect_err := Some syntax_error\<rparr>"

definition other_revision_comment :: gh_comment where
  "other_revision_comment =
     \<lparr>comment_id = 41, user_type = ''Bot'',
      body = ''### Automated Workflow Results for commit 000aaa''\<rparr>"

definition lists_other_revision :: "nat \<Rightarrow> outcomes" where
  "lists_other_revision n = all_succeed\<lparr>list_result := Inr [other_revision_comment]\<rparr>"

text \<open>The calls of an attempt that fails at \<open>BEGIN\<close>, and of one that reaches \<open>listComments\<close>.\<close>

definition locked_calls :: "event list" where
  "locked_calls = [ClientConnect, ClientQuery SQL_BEGIN, ClientQuery SQL_ROLLBACK, ClientEnd]"

definition sync_calls :: "event list" where
  "sync_calls =
     [ClientConnect, ClientQuery SQL_BEGIN, ClientQuery SQL_INSERT, ClientQuery SQL_SELECT,
      ListComments 7]"

definition appended_row :: pr_comment where
  "appended_row =
     \<lparr>row_id = 1, pr_number = 7, commit_sha = ''abc123'', message = ''build ok'',
      created_at = 100, source = ''ci/test'', run_id = 10, run_attempt = 1\<rparr>"

section \<open>Properties of the source key\<close>

lemma collect_Inl: "collect rs = Inl msg \<Longrightarrow> Inl msg \<in> set rs"
  by (induction rs rule: collect.induct) (auto split: sum.splits)

lemma collect_Inr: "collect rs = Inr xs \<Longrightarrow> rs = map Inr xs"
  by (induction rs arbitrary: xs rule: collect.induct) (auto split: sum.splits)

lemma collect_Inl_iff: "(\<exists>msg. collect rs = Inl msg) \<longleftrightarrow> (\<exists>msg. Inl msg \<in> set rs)"
proof
  assume "\<exists>msg. collect rs = Inl msg"
  then show "\<exists>msg. Inl msg \<in> set rs" using collect_Inl by blast
next
  assume "\<exists>msg. Inl msg \<in> set rs"
  then obtain msg where m: "Inl msg \<in> set rs" by blast
  show "\<exists>msg. collect rs = Inl msg"
  proof (cases "collect rs")
    case (Inl a)
    then show ?thesis by blast
  next
    case (Inr xs)
    from collect_Inr [OF this] m show ?thesis by auto
  qed
qed

text \<open>Every conversion that throws does so with the same message.\<close>

lemma toString_Inl: "toString v = Inl msg \<Longrightarrow> msg = not_primitive"
proof (induction v arbitrary: msg rule: toString.induct)
  case (5 xs)
  from "5.prems" have "collect (map (\<lambda>x. if x = JNull then Inr [] else toString x) xs) = Inl msg"
    by (simp split: sum.splits)
  from collect_Inl [OF this] obtain x where "x \<in> set xs" "x \<noteq> JNull" "toString x = Inl msg"
    by (auto split: if_splits)
  with "5.IH" show ?case by blast
qed (auto split: if_splits)

lemma entry_text_Inl: "entry_text kv = Inl msg \<Longrightarrow> msg = not_primitive"
  by (auto simp: entry_text_def split: sum.splits dest: toString_Inl)

lemma collect_perm:
  assumes "mset rs = mset rs'" and "\<And>msg. Inl msg \<in> set rs \<Longrightarrow> msg = c"
  shows "(case collect rs of Inl msg \<Rightarrow> Inl msg | Inr xs \<Rightarrow> Inr (sort xs)) =
         (case collect rs' of Inl msg \<Rightarrow> Inl msg | Inr xs \<Rightarrow> Inr (sort (xs :: string list)))"
proof -
  from assms(1) have sets: "set rs = set rs'" by (rule mset_eq_setD)
  show ?thesis
  proof (cases "collect rs")
    case (Inl msg)
    then have "Inl msg \<in> set rs" by (rule collect_Inl)
    with assms(2) have mc: "msg = c" by blast
    from Inl collect_Inl_iff [of rs] sets collect_Inl_iff [of rs'] obtain msg' where
      r': "collect rs' = Inl msg'" by blast
    then have "Inl msg' \<in> set rs'" by (rule collect_Inl)
    with sets assms(2) have "msg' = c" by blast
    with Inl r' mc show ?thesis by simp
  next
    case (Inr xs)
    then have rs: "rs = map Inr xs" by (rule collect_Inr)
    have "\<not> (\<exists>msg. collect rs' = Inl msg)"
      using collect_Inl_iff [of rs'] sets rs by auto
    then obtain xs' where r': "collect rs' = Inr xs'" by (cases "collect rs'") auto
    then have rs': "rs' = map Inr xs'" by (rule collect_Inr)
    let ?proj = "\<lambda>r :: string + string. case r of Inl msg \<Rightarrow> [] | Inr x \<Rightarrow> x"
    from assms(1) have "mset (map ?proj rs) = mset (map ?proj rs')" by simp
    then have "mset xs = mset xs'" by (simp add: rs rs' comp_def)
    then have "sort xs = sort xs'"
      by (intro properties_for_sort) simp_all
    with Inr r' show ?thesis by simp
  qed
qed

lemma matrix_params_perm:
  assumes "mset m1 = mset m2"
  shows "matrix_params (JObj m1) = matrix_params (JObj m2)"
proof -
  have "mset (map entry_text m1) = mset (map entry_text m2)"
    using assms by simp
  moreover have "msg = not_primitive" if "Inl msg \<in> set (map entry_text m1)" for msg
    using that entry_text_Inl by force
  ultimately have
    "(case collect (map entry_text m1) of Inl msg \<Rightarrow> Inl msg | Inr xs \<Rightarrow> Inr (sort xs)) =
     (case collect (map entry_text m2) of Inl msg \<Rightarrow> Inl msg | Inr xs \<Rightarrow> Inr (sort xs))"
    by (rule collect_perm)
  then show ?thesis
    by (auto simp: matrix_params_def Object_entries_def split: sum.splits)
qed

lemma Object_entries_Inl:
  "Object_entries v = Inl msg \<longleftrightarrow>
     v = JNull \<and> msg = ''Cannot convert undefined or null to object''"
  by (cases v) (auto simp: Object_entries_def)

lemma entry_text_Inl_iff: "entry_text kv = Inl msg \<longleftrightarrow> toString (snd kv) = Inl msg"
  by (simp add: entry_text_def split: sum.splits)

lemma collect_entry_text_Inl:
  "(\<exists>msg. collect (map entry_text entries) = Inl msg) \<longleftrightarrow>
     (\<exists>kv msg. kv \<in> set entries \<and> toString (snd kv) = Inl msg)"
proof
  assume "\<exists>msg. collect (map entry_text entries) = Inl msg"
  then obtain msg where "Inl msg \<in> set (map entry_text entries)"
    using collect_Inl by blast
  then obtain kv where "kv \<in> set entries" and "entry_text kv = Inl msg" by auto
  then show "\<exists>kv msg. kv \<in> set entries \<and> toString (snd kv) = Inl msg"
    using entry_text_Inl_iff by blast
next
  assume "\<exists>kv msg. kv \<in> set entries \<and> toString (snd kv) = Inl msg"
  then obtain kv msg where "kv \<in> set entries" and "entry_text kv = Inl msg"
    using entry_text_Inl_iff by blast
  then have "Inl msg \<in> set (map entry_text entries)" by force
  then show "\<exists>msg. collect (map entry_text entries) = Inl msg"
    using collect_Inl_iff by blast
qed

lemma try_matrix_params_throws:
  "(\<exists>msg. try_matrix_params JSON_parse s = Inl msg) \<longleftrightarrow>
      (\<exists>msg. JSON_parse s = Inl msg) \<or> JSON_parse s = Inr JNull \<or>
      (\<exists>matrix entries kv msg. JSON_parse s = Inr matrix \<and> Object_entries matrix = Inr entries \<and>
         kv \<in> set entries \<and> toString (snd kv) = Inl msg)"
proof (cases "JSON_parse s")
  case (Inl msg)
  then show ?thesis by (simp add: try_matrix_params_def)
next
  case (Inr matrix)
  show ?thesis
  proof (cases "Object_entries matrix")
    case (Inl msg)
    then have "matrix = JNull" using Object_entries_Inl by blast
    with Inr Inl show ?thesis
      by (simp add: try_matrix_params_def matrix_params_def)
  next
    case entries: (Inr entries)
    then have nn: "matrix \<noteq> JNull" by (auto simp: Object_entries_def)
    have tm: "try_matrix_params JSON_parse s =
        (case collect (map entry_text entries) of
           Inl msg \<Rightarrow> Inl msg
         | Inr texts \<Rightarrow> Inr (join '','' (sort texts)))"
      using Inr entries by (simp add: try_matrix_params_def matrix_params_def)
    have "(\<exists>msg. try_matrix_params JSON_parse s = Inl msg) \<longleftrightarrow>
        (\<exists>msg. collect (map entry_text entries) = Inl msg)"
      unfolding tm by (cases "collect (map entry_text entries)") simp_all
    also have "\<dots> \<longleftrightarrow> (\<exists>kv msg. kv \<in> set entries \<and> toString (snd kv) = Inl msg)"
      by (rule collect_entry_text_Inl)
    finally show ?thesis using Inr entries nn by simp
  qed
qed

lemma generateSource_ba:
  "generateSource parse_fixture ctx_fixture (Some matrix_ba) = (''ci/test(a=1,b=2)'', [])"
  by code_simp

text \<open>
  C7. The source key does not depend on the order of the matrix entries: two matrix inputs
  that parse to objects with the same entries, in any order, give the same key (and the
  same warnings).
\<close>

theorem generateSource_order_independent:
  assumes "JSON_parse s1 = Inr (JObj m1)" and "JSON_parse s2 = Inr (JObj m2)"
    and "s1 \<noteq> []" and "s2 \<noteq> []" and "mset m1 = mset m2"
  shows "generateSource JSON_parse ctx (Some s1) = generateSource JSON_parse ctx (Some s2)"
proof -
  have "try_matrix_params JSON_parse s1 = try_matrix_params JSON_parse s2"
    using assms matrix_params_perm [of m1 m2] by (simp add: try_matrix_params_def)
  then show ?thesis
    using assms(3,4) by (simp add: generateSource_def)
qed

theorem generateSource_order_independent_witness:
  "generateSource parse_fixture ctx_fixture (Some matrix_ba) = (''ci/test(a=1,b=2)'', []) \<and>
   generateSource parse_fixture ctx_fixture (Some matrix_ba) =
     generateSource parse_fixture ctx_fixture (Some matrix_ab)"
proof -
  have p1: "parse_fixture matrix_ba = Inr (JObj [(''b'', JNum ''2''), (''a'', JNum ''1'')])"
    by (simp add: parse_fixture_def)
  have p2: "parse_fixture matrix_ab = Inr (JObj [(''a'', JNum ''1''), (''b'', JNum ''2'')])"
    by (simp add: parse_fixture_def matrix_ab_def matrix_ba_def quoted_def)
  have ms: "mset [(''b'', JNum ''2''), (''a'', JNum ''1'')] =
      mset [(''a'', JNum ''1''), (''b'', JNum ''2'')]"
    by (simp add: add_mset_commute)
  have ne1: "matrix_ba \<noteq> []" by (simp add: matrix_ba_def)
  have ne2: "matrix_ab \<noteq> []" by (simp add: matrix_ab_def)
  have "generateSource parse_fixture ctx_fixture (Some matrix_ba) =
     generateSource parse_fixture ctx_fixture (Some matrix_ab)"
    by (rule generateSource_order_independent [where ?m1.0 = "[(''b'', JNum ''2''), (''a'', JNum ''1'')]"
          and ?m2.0 = "[(''a'', JNum ''1''), (''b'', JNum ''2'')]", OF p1 p2 ne1 ne2 ms])
  with generateSource_ba show ?thesis by (rule conjI)
qed

text \<open>
  C8. \<open>generateSource\<close> has no way out but its \<open>return\<close>: for every input it gives a
  key, which starts with \<open>workflow/job\<close>. Without a matrix input (undefined or empty) the
  key is \<open>workflow/job\<close> and nothing is logged. When the \<open>try\<close> block throws (in
  \<open>JSON.parse\<close>, in \<open>Object.entries\<close> or in the conversion of a value), the key is
  \<open>workflow/job\<close> as well and one warning with the message of the error is logged.
  Otherwise nothing is logged and the key carries the parameters in parentheses, unless
  there are none. The \<open>try\<close> block throws exactly when \<open>JSON.parse\<close> throws, or the parsed
  value is \<open>null\<close>, or the conversion of the value of an entry throws.
\<close>

theorem generateSource_never_fails:
  "(\<exists>suffix warnings.
      generateSource JSON_parse ctx matrixInput = (workflow ctx @ ''/'' @ job ctx @ suffix, warnings)) \<and>
   (matrixInput = None \<or> matrixInput = Some [] \<longrightarrow>
      generateSource JSON_parse ctx matrixInput = (workflow ctx @ ''/'' @ job ctx, [])) \<and>
   (\<forall>s msg. matrixInput = Some s \<and> s \<noteq> [] \<and> try_matrix_params JSON_parse s = Inl msg \<longrightarrow>
      generateSource JSON_parse ctx matrixInput =
        (workflow ctx @ ''/'' @ job ctx, [parse_warning msg])) \<and>
   (\<forall>s ps. matrixInput = Some s \<and> s \<noteq> [] \<and> try_matrix_params JSON_parse s = Inr ps \<longrightarrow>
      generateSource JSON_parse ctx matrixInput =
        (if ps \<noteq> [] then workflow ctx @ ''/'' @ job ctx @ ''('' @ ps @ '')''
         else workflow ctx @ ''/'' @ job ctx, [])) \<and>
   (\<forall>s. (\<exists>msg. try_matrix_params JSON_parse s = Inl msg) \<longleftrightarrow>
      (\<exists>msg. JSON_parse s = Inl msg) \<or> JSON_parse s = Inr JNull \<or>
      (\<exists>matrix entries kv msg. JSON_parse s = Inr matrix \<and> Object_entries matrix = Inr entries \<and>
         kv \<in> set entries \<and> toString (snd kv) = Inl msg))"
proof (intro conjI allI impI)
  show "\<exists>suffix warnings.
      generateSource JSON_parse ctx matrixInput = (workflow ctx @ ''/'' @ job ctx @ suffix, warnings)"
  proof (cases "fst (generateSource JSON_parse ctx matrixInput) = workflow ctx @ ''/'' @ job ctx")
    case True
    then have "generateSource JSON_parse ctx matrixInput =
        (workflow ctx @ ''/'' @ job ctx @ [], snd (generateSource JSON_parse ctx matrixInput))"
      by (simp add: prod_eq_iff)
    then show ?thesis by blast
  next
    case False
    then obtain ps where "generateSource JSON_parse ctx matrixInput =
        (workflow ctx @ ''/'' @ job ctx @ (''('' @ ps @ '')''), snd (generateSource JSON_parse ctx matrixInput))"
      by (auto simp: generateSource_def split: option.splits if_splits sum.splits)
    then show ?thesis by blast
  qed
next
  fix s
  show "(\<exists>msg. try_matrix_params JSON_parse s = Inl msg) \<longleftrightarrow>
      (\<exists>msg. JSON_parse s = Inl msg) \<or> JSON_parse s = Inr JNull \<or>
      (\<exists>matrix entries kv msg. JSON_parse s = Inr matrix \<and> Object_entries matrix = Inr entries \<and>
         kv \<in> set entries \<and> toString (snd kv) = Inl msg)"
    by (rule try_matrix_params_throws)
qed (auto simp: generateSource_def)

theorem generateSource_never_fails_witness:
  "generateSource parse_fixture ctx_fixture None = (''ci/test'', []) \<and>
   generateSource parse_fixture ctx_fixture (Some ''{not json'') =
     (''ci/test'', [''Failed to parse matrix input: Unexpected token'']) \<and>
   generateSource parse_fixture ctx_fixture (Some ''null'') =
     (''ci/test'', [''Failed to parse matrix input: Cannot convert undefined or null to object'']) \<and>
   generateSource parse_fixture ctx_fixture (Some matrix_own_toString) =
     (''ci/test'', [''Failed to parse matrix input: Cannot convert object to primitive value'']) \<and>
   generateSource parse_fixture ctx_fixture (Some matrix_ba) = (''ci/test(a=1,b=2)'', [])"
proof -
  have t1: "try_matrix_params parse_fixture ''{not json'' = Inl ''Unexpected token''"
    by code_simp
  have t2: "try_matrix_params parse_fixture ''null'' =
      Inl ''Cannot convert undefined or null to object''"
    by code_simp
  have t3: "try_matrix_params parse_fixture matrix_own_toString =
      Inl ''Cannot convert object to primitive value''"
    by code_simp
  have t4: "try_matrix_params parse_fixture matrix_ba = Inr ''a=1,b=2''"
    by code_simp
  have ne: "matrix_own_toString \<noteq> []" "matrix_ba \<noteq> []"
    by (simp_all add: matrix_own_toString_def matrix_ba_def)
  have k: "workflow ctx_fixture @ ''/'' @ job ctx_fixture = ''ci/test''"
    by (simp add: ctx_fixture_def)
  have a: "generateSource parse_fixture ctx_fixture None = (''ci/test'', [])"
    using generateSource_never_fails [of parse_fixture ctx_fixture None] k by simp
  have b: "generateSource parse_fixture ctx_fixture (Some ''{not json'') =
      (''ci/test'', [''Failed to parse matrix input: Unexpected token''])"
    using generateSource_never_fails [of parse_fixture ctx_fixture "Some ''{not json''"] t1 k
    by (simp add: parse_warning_def)
  have c: "generateSource parse_fixture ctx_fixture (Some ''null'') =
      (''ci/test'', [''Failed to parse matrix input: Cannot convert undefined or null to object''])"
    using generateSource_never_fails [of parse_fixture ctx_fixture "Some ''null''"] t2 k
    by (simp add: parse_warning_def)
  have d: "generateSource parse_fixture ctx_fixture (Some matrix_own_toString) =
      (''ci/test'', [''Failed to parse matrix input: Cannot convert object to primitive value''])"
    using generateSource_never_fails [of parse_fixture ctx_fixture "Some matrix_own_toString"] t3 k ne
    by (simp add: parse_warning_def)
  have e: "generateSource parse_fixture ctx_fixture (Some matrix_ba) = (''ci/test(a=1,b=2)'', [])"
    using generateSource_never_fails [of parse_fixture ctx_fixture "Some matrix_ba"] t4 k ne
    by simp
  from a b c d e show ?thesis by simp
qed

section \<open>Properties of the resolve query\<close>




lemma distinct_on_source_sources: "source ` set (distinct_on_source xs) = source ` set xs"
  by (induction xs rule: distinct_on_source.induct) auto






lemma select_latest_sources:
  "source ` set (select_latest prNumber commitSha table) =
     source ` set (where_clause prNumber commitSha table)"
  using distinct_on_source_sources [of "sort_key order_key (where_clause prNumber commitSha table)"]
  by (simp add: select_latest_def latest_runs_def)







text \<open>
  C10. The rows the \<open>SELECT\<close> returns after the \<open>INSERT\<close> of the same transaction are never
  empty: one of them has the source key of the inserted row.
\<close>

theorem append_resolve_has_source:
  "append_resolve p pr src oc table \<noteq> [] \<and>
   (\<exists>r \<in> set (append_resolve p pr src oc table). source r = src)"
proof -
  let ?row = "inserted_row p pr src oc"
  have "?row \<in> set (where_clause (number pr) (head_sha pr) (table @ [?row]))"
    by (simp add: where_clause_def inserted_row_def)
  then have "source ?row \<in> source ` set (where_clause (number pr) (head_sha pr) (table @ [?row]))"
    by (rule imageI)
  then have "source ?row \<in> source ` set (append_resolve p pr src oc table)"
    by (simp add: append_resolve_def select_latest_sources)
  moreover have "source ?row = src" by (simp add: inserted_row_def)
  ultimately have "\<exists>r \<in> set (append_resolve p pr src oc table). source r = src" by auto
  then show ?thesis by auto
qed

section \<open>Properties of one attempt\<close>

lemma sleeps_append: "sleeps (xs @ ys) = sleeps xs @ sleeps ys"
  by (induction xs rule: sleeps.induct) auto

lemma attempts_made_append: "attempts_made (xs @ ys) = attempts_made xs + attempts_made ys"
  by (simp add: attempts_made_def)

lemma releases_append: "releases (xs @ ys) = releases xs + releases ys"
  by (simp add: releases_def)

lemma sleeps_Warning: "sleeps (map Warning ws @ calls) = sleeps calls"
  by (induction ws) auto

lemma attempts_made_Warning: "attempts_made (map Warning ws @ calls) = attempts_made calls"
  by (induction ws) (auto simp: attempts_made_def)

lemma transaction_no_connect_sleep:
  "transaction timestamp p pr src oc table = (r, table', calls) \<Longrightarrow>
     attempts_made calls = 0 \<and> sleeps calls = []"
  by (auto simp: transaction_def attempts_made_def write_call_def Let_def
      split: option.splits sum.splits)

lemma attempt_body_one_connect:
  "attempt_body timestamp p pr src oc table = (r, table', calls) \<Longrightarrow>
     attempts_made calls = 1 \<and> sleeps calls = []"
  using transaction_no_connect_sleep [of timestamp p pr src oc table]
  by (auto simp: attempt_body_def inner_catch_def inner_finally_def attempts_made_def
      sleeps_append split: option.splits prod.splits)

lemma attempt_body_starts:
  "attempt_body timestamp p pr src oc table = (r, table', calls) \<Longrightarrow>
     \<exists>rest. calls = ClientConnect # rest"
  by (auto simp: attempt_body_def split: option.splits prod.splits)

lemma attempt_body_after_throw:
  "connect_err oc = None \<Longrightarrow>
   transaction timestamp p pr src oc table = (Some e, t0, tc) \<Longrightarrow>
     attempt_body timestamp p pr src oc table =
       (case finally_end_err oc of
          Some e2 \<Rightarrow> Some e2
        | None \<Rightarrow> (case rollback_err oc of Some e1 \<Rightarrow> Some e1 | None \<Rightarrow> Some e),
        t0, ClientConnect # tc @ [ClientQuery SQL_ROLLBACK, ClientEnd])"
  by (simp add: attempt_body_def inner_catch_def inner_finally_def split: option.splits)

lemma attempt_body_after_return:
  "connect_err oc = None \<Longrightarrow>
   transaction timestamp p pr src oc table = (None, t0, tc) \<Longrightarrow>
     attempt_body timestamp p pr src oc table =
       (finally_end_err oc, t0, ClientConnect # tc @ [ClientEnd])"
  by (simp add: attempt_body_def inner_catch_def inner_finally_def split: option.splits)

lemma attempt_body_connect_fails:
  "connect_err oc = Some e \<Longrightarrow>
     attempt_body timestamp p pr src oc table = (Some e, table, [ClientConnect])"
  by (simp add: attempt_body_def)

lemma transaction_cases:
  "transaction timestamp p pr src oc table = (r, table', calls) \<Longrightarrow>
   (table' = table \<and> ClientQuery SQL_COMMIT \<notin> set calls \<and> r \<noteq> None) \<or>
   (table' = table \<and> r \<noteq> None \<and> commit_err oc \<noteq> None \<and>
      (\<exists>cs. list_result oc = Inr cs \<and> write_err oc = None \<and>
        calls = [ClientQuery SQL_BEGIN, ClientQuery SQL_INSERT, ClientQuery SQL_SELECT] @
          [ListComments (number pr),
           write_call (number pr)
             (combinedMessage timestamp (head_sha pr) (append_resolve p pr src oc table)) cs,
           ClientQuery SQL_COMMIT] @ [])) \<or>
   (table' = table @ [inserted_row p pr src oc] \<and>
      (\<exists>cs. list_result oc = Inr cs \<and> write_err oc = None \<and>
        calls = [ClientQuery SQL_BEGIN, ClientQuery SQL_INSERT, ClientQuery SQL_SELECT] @
          [ListComments (number pr),
           write_call (number pr)
             (combinedMessage timestamp (head_sha pr) (append_resolve p pr src oc table)) cs,
           ClientQuery SQL_COMMIT] @ [ClientEnd]))"
  by (auto simp: transaction_def Let_def write_call_def split: option.splits sum.splits)

lemma transaction_sync_fails:
  assumes "begin_err oc = None" and "insert_err oc = None" and "select_err oc = None"
    and "list_result oc = Inl e \<or> (\<exists>cs. list_result oc = Inr cs) \<and> write_err oc = Some e"
  shows "\<exists>calls. transaction timestamp p pr src oc table = (Some e, table, calls) \<and>
     ClientQuery SQL_COMMIT \<notin> set calls"
  using assms
  by (auto simp: transaction_def Let_def write_call_def split: option.splits sum.splits)

subsection \<open>Evaluations on the example inputs\<close>

lemma payload_fixture: "payload_pull_request (params_context params_fixture) = Some pr_fixture"
  by (simp add: params_fixture_def ctx_fixture_def pr_fixture_def)

lemma source_fixture:
  "generateSource parse_fixture (params_context params_fixture) (params_matrix params_fixture) =
     (''ci/test'', [])"
  by (simp add: generateSource_def params_fixture_def ctx_fixture_def)

lemma attempt_body_locked:
  "attempt_body timestamp p pr src (always_locked n) t = (Some lock_error, t, locked_calls)"
  by (simp add: attempt_body_def transaction_def inner_catch_def inner_finally_def
      always_locked_def all_succeed_def locked_calls_def)

lemma attempt_body_syntax_fails:
  "attempt_body timestamp p pr src (syntax_fails n) t =
     (Some syntax_error, t,
      [ClientConnect, ClientQuery SQL_BEGIN, ClientQuery SQL_INSERT, ClientQuery SQL_ROLLBACK,
       ClientEnd])"
  by (simp add: attempt_body_def transaction_def inner_catch_def inner_finally_def
      syntax_fails_def all_succeed_def)

lemma attempt_body_list_fails:
  "attempt_body timestamp_fixture params_fixture pr_fixture ''ci/test'' list_fails_once [] =
     (Some api_error, [], sync_calls @ [ClientQuery SQL_ROLLBACK, ClientEnd])"
  by code_simp

lemma attempt_body_all_succeed:
  "attempt_body timestamp_fixture params_fixture pr_fixture ''ci/test'' all_succeed [] =
     (None, [appended_row],
      sync_calls @
      [write_call 7 (combinedMessage timestamp_fixture ''abc123'' [appended_row]) [],
       ClientQuery SQL_COMMIT, ClientEnd, ClientEnd])"
  by code_simp

lemma attempt_body_api_error:
  "attempt_body timestamp_fixture params_fixture pr_fixture ''ci/test'' (list_fails n) [] =
     (Some api_error, [], sync_calls @ [ClientQuery SQL_ROLLBACK, ClientEnd])"
  by (simp add: list_fails_def attempt_body_list_fails)

lemma api_error_fatal: "status_truthy api_error \<and> \<not> is_retry_code api_error"
  by (simp add: status_truthy_def is_retry_code_def api_error_def)

lemma lock_error_transient: "\<not> status_truthy lock_error \<and> is_retry_code lock_error"
  by (simp add: status_truthy_def is_retry_code_def lock_error_def RETRY_ERROR_CODES_def)

lemma syntax_error_fatal: "\<not> is_retry_code syntax_error"
  by (simp add: is_retry_code_def syntax_error_def RETRY_ERROR_CODES_def)

lemma run_always_ok:
  "processWithRetry parse_fixture timestamp_fixture params_fixture always_ok [] =
     (Returned, [appended_row],
      sync_calls @
      [CreateComment 7 (combinedMessage timestamp_fixture ''abc123'' [appended_row]),
       ClientQuery SQL_COMMIT, ClientEnd, ClientEnd])"
  by code_simp

lemma run_always_locked:
  "processWithRetry parse_fixture timestamp_fixture params_fixture always_locked [] =
     (Thrown lock_error, [],
      locked_calls @ [Sleep 1000] @ locked_calls @ [Sleep 2000] @ locked_calls)"
  by code_simp

lemma run_locked_once:
  "processWithRetry parse_fixture timestamp_fixture params_fixture locked_once [] =
     (Returned, [appended_row],
      locked_calls @ [Sleep 1000] @ sync_calls @
      [CreateComment 7 (combinedMessage timestamp_fixture ''abc123'' [appended_row]),
       ClientQuery SQL_COMMIT, ClientEnd, ClientEnd])"
  by code_simp

lemma run_syntax_fails:
  "processWithRetry parse_fixture timestamp_fixture params_fixture syntax_fails [] =
     (Thrown syntax_error, [],
      [ClientConnect, ClientQuery SQL_BEGIN, ClientQuery SQL_INSERT, ClientQuery SQL_ROLLBACK,
       ClientEnd])"
  by code_simp

lemma run_connect_fails:
  "processWithRetry parse_fixture timestamp_fixture params_fixture connect_fails [] =
     (Thrown syntax_error, [], [ClientConnect])"
  by code_simp

lemma run_list_fails:
  "processWithRetry parse_fixture timestamp_fixture params_fixture list_fails [] =
     (Thrown api_error, [],
      [ClientConnect, ClientQuery SQL_BEGIN, ClientQuery SQL_INSERT, ClientQuery SQL_SELECT,
       ListComments 7, ClientQuery SQL_ROLLBACK, ClientEnd])"
  by code_simp

lemma run_list_fails_with_code:
  "processWithRetry parse_fixture timestamp_fixture params_fixture list_fails_with_code [] =
     (Thrown api_error_with_code, [],
      [ClientConnect, ClientQuery SQL_BEGIN, ClientQuery SQL_INSERT, ClientQuery SQL_SELECT,
       ListComments 7, ClientQuery SQL_ROLLBACK, ClientEnd])"
  by code_simp

lemma run_lists_other_revision:
  "processWithRetry parse_fixture timestamp_fixture params_fixture lists_other_revision [] =
     (Returned, [appended_row],
      sync_calls @
      [UpdateComment 41 (combinedMessage timestamp_fixture ''abc123'' [appended_row]),
       ClientQuery SQL_COMMIT, ClientEnd, ClientEnd])"
  by code_simp

subsection \<open>External Sync and the transaction\<close>

text \<open>
  C2, as the code has it. The calls of External Sync (\<open>listComments\<close>, then
  \<open>updateComment\<close> or \<open>createComment\<close>) stand between \<open>BEGIN\<close> and \<open>COMMIT\<close>. When one
  of them throws in an attempt that got as far, the attempt ends in an error, sends
  \<open>ROLLBACK\<close> and \<open>client.end()\<close> last, never sends \<open>COMMIT\<close>, and leaves the committed
  rows as they were; the error is the one of External Sync when \<open>ROLLBACK\<close> and
  \<open>client.end()\<close> succeed. In every attempt, \<open>COMMIT\<close> is sent only directly after
  \<open>listComments\<close> and the write call, both successful; and the committed rows change in
  an attempt only by the inserted row, and only when \<open>COMMIT\<close> was sent.
\<close>

theorem external_sync_failure_rolls_back:
  assumes "attempt_body timestamp p pr src oc table = (r, table', calls)"
  shows "(connect_err oc = None \<and> begin_err oc = None \<and> insert_err oc = None \<and>
          select_err oc = None \<and>
          (list_result oc = Inl e \<or> (\<exists>cs. list_result oc = Inr cs) \<and> write_err oc = Some e)
          \<longrightarrow> r \<noteq> None \<and> table' = table \<and> ClientQuery SQL_COMMIT \<notin> set calls \<and>
              (\<exists>pre. calls = pre @ [ClientQuery SQL_ROLLBACK, ClientEnd]) \<and>
              (rollback_err oc = None \<and> finally_end_err oc = None \<longrightarrow> r = Some e)) \<and>
         (ClientQuery SQL_COMMIT \<in> set calls \<longrightarrow>
            (\<exists>pre post cs. list_result oc = Inr cs \<and> write_err oc = None \<and>
               calls = pre @
                 [ListComments (number pr),
                  write_call (number pr)
                    (combinedMessage timestamp (head_sha pr) (append_resolve p pr src oc table)) cs,
                  ClientQuery SQL_COMMIT] @ post)) \<and>
         (table' \<noteq> table \<longrightarrow>
            ClientQuery SQL_COMMIT \<in> set calls \<and> table' = table @ [inserted_row p pr src oc])"
proof (intro conjI impI)
  assume h: "connect_err oc = None \<and> begin_err oc = None \<and> insert_err oc = None \<and>
          select_err oc = None \<and>
          (list_result oc = Inl e \<or> (\<exists>cs. list_result oc = Inr cs) \<and> write_err oc = Some e)"
  then obtain tc where tr: "transaction timestamp p pr src oc table = (Some e, table, tc)"
    and nc: "ClientQuery SQL_COMMIT \<notin> set tc"
    using transaction_sync_fails [of oc e timestamp p pr src table] by blast
  from h have co: "connect_err oc = None" by simp
  from attempt_body_after_throw [OF co tr] assms
  have res: "r \<noteq> None \<and> table' = table \<and>
      calls = ClientConnect # tc @ [ClientQuery SQL_ROLLBACK, ClientEnd] \<and>
      (rollback_err oc = None \<and> finally_end_err oc = None \<longrightarrow> r = Some e)"
    by (cases "rollback_err oc"; cases "finally_end_err oc") auto
  from res show "r \<noteq> None" by simp
  from res show "table' = table" by simp
  from res nc show "ClientQuery SQL_COMMIT \<notin> set calls" by simp
  from res have "calls = (ClientConnect # tc) @ [ClientQuery SQL_ROLLBACK, ClientEnd]" by simp
  then show "\<exists>pre. calls = pre @ [ClientQuery SQL_ROLLBACK, ClientEnd]" by blast
  { assume "rollback_err oc = None \<and> finally_end_err oc = None"
    with res show "r = Some e" by simp }
next
  assume cm: "ClientQuery SQL_COMMIT \<in> set calls"
  show "\<exists>pre post cs. list_result oc = Inr cs \<and> write_err oc = None \<and>
               calls = pre @
                 [ListComments (number pr),
                  write_call (number pr)
                    (combinedMessage timestamp (head_sha pr) (append_resolve p pr src oc table)) cs,
                  ClientQuery SQL_COMMIT] @ post"
  proof (cases "connect_err oc")
    case (Some e0)
    from attempt_body_connect_fails [OF this, of timestamp p pr src table] assms cm
    show ?thesis by auto
  next
    case None
    obtain r0 t0 tc where tr: "transaction timestamp p pr src oc table = (r0, t0, tc)"
      by (cases "transaction timestamp p pr src oc table") auto
    from assms attempt_body_after_throw [OF None, of timestamp p pr src table]
      attempt_body_after_return [OF None, of timestamp p pr src table] tr
    obtain tail where cs: "calls = ClientConnect # tc @ tail"
      and tl: "ClientQuery SQL_COMMIT \<notin> set tail"
      by (cases r0) auto
    with cm have "ClientQuery SQL_COMMIT \<in> set tc" by auto
    with transaction_cases [OF tr] obtain cs' post0 where
      "list_result oc = Inr cs'" "write_err oc = None"
      "tc = [ClientQuery SQL_BEGIN, ClientQuery SQL_INSERT, ClientQuery SQL_SELECT] @
          [ListComments (number pr),
           write_call (number pr)
             (combinedMessage timestamp (head_sha pr) (append_resolve p pr src oc table)) cs',
           ClientQuery SQL_COMMIT] @ post0"
      by blast
    with cs have "list_result oc = Inr cs' \<and> write_err oc = None \<and>
        calls = (ClientConnect # [ClientQuery SQL_BEGIN, ClientQuery SQL_INSERT, ClientQuery SQL_SELECT]) @
          [ListComments (number pr),
           write_call (number pr)
             (combinedMessage timestamp (head_sha pr) (append_resolve p pr src oc table)) cs',
           ClientQuery SQL_COMMIT] @ (post0 @ tail)" by simp
    then show ?thesis by blast
  qed
next
  assume ne: "table' \<noteq> table"
  have co: "connect_err oc = None"
  proof (rule ccontr)
    assume "connect_err oc \<noteq> None"
    then obtain e0 where "connect_err oc = Some e0" by auto
    from attempt_body_connect_fails [OF this, of timestamp p pr src table] assms ne
    show False by simp
  qed
  obtain r0 t0 tc where tr: "transaction timestamp p pr src oc table = (r0, t0, tc)"
    by (cases "transaction timestamp p pr src oc table") auto
  from assms attempt_body_after_throw [OF co, of timestamp p pr src table]
    attempt_body_after_return [OF co, of timestamp p pr src table] tr
  have t0: "t0 = table'" and sub: "set tc \<subseteq> set calls"
    by (cases r0; auto)+
  from transaction_cases [OF tr] ne t0
  have "table' = table @ [inserted_row p pr src oc] \<and> ClientQuery SQL_COMMIT \<in> set tc"
    by auto
  with sub show "ClientQuery SQL_COMMIT \<in> set calls" and "table' = table @ [inserted_row p pr src oc]"
    by auto
qed

theorem external_sync_failure_rolls_back_witness:
  "list_result list_fails_once = Inl api_error \<and>
   fst (attempt_body timestamp_fixture params_fixture pr_fixture ''ci/test'' list_fails_once [])
     = Some api_error \<and>
   fst (snd (attempt_body timestamp_fixture params_fixture pr_fixture ''ci/test'' list_fails_once []))
     = [] \<and>
   ClientQuery SQL_COMMIT \<notin>
     set (snd (snd (attempt_body timestamp_fixture params_fixture pr_fixture ''ci/test''
       list_fails_once []))) \<and>
   ClientQuery SQL_COMMIT \<in>
     set (snd (snd (attempt_body timestamp_fixture params_fixture pr_fixture ''ci/test''
       all_succeed []))) \<and>
   fst (snd (attempt_body timestamp_fixture params_fixture pr_fixture ''ci/test'' all_succeed []))
     = [] @ [inserted_row params_fixture pr_fixture ''ci/test'' all_succeed]"
proof -
  note a = external_sync_failure_rolls_back [OF attempt_body_list_fails, where e = api_error]
  note b = external_sync_failure_rolls_back [OF attempt_body_all_succeed, where e = api_error]
  have h: "connect_err list_fails_once = None \<and> begin_err list_fails_once = None \<and>
      insert_err list_fails_once = None \<and> select_err list_fails_once = None \<and>
      list_result list_fails_once = Inl api_error \<and> rollback_err list_fails_once = None \<and>
      finally_end_err list_fails_once = None"
    by (simp add: list_fails_once_def all_succeed_def)
  from a h have "ClientQuery SQL_COMMIT \<notin> set (sync_calls @ [ClientQuery SQL_ROLLBACK, ClientEnd])"
    by blast
  moreover have "[appended_row] \<noteq> []" by simp
  with b have "ClientQuery SQL_COMMIT \<in> set (sync_calls @
      [write_call 7 (combinedMessage timestamp_fixture ''abc123'' [appended_row]) [],
       ClientQuery SQL_COMMIT, ClientEnd, ClientEnd]) \<and>
     [appended_row] = [] @ [inserted_row params_fixture pr_fixture ''ci/test'' all_succeed]"
    by blast
  ultimately show ?thesis
    using h by (simp add: attempt_body_list_fails attempt_body_all_succeed)
qed

text \<open>
  C2, as the claim states it, fails: when \<open>listComments\<close> throws, the table is empty
  afterwards as it was before, \<open>COMMIT\<close> is never sent, and \<open>listComments\<close> was called
  inside the open transaction.
\<close>

theorem external_sync_failure_counterexample:
  "processWithRetry parse_fixture timestamp_fixture params_fixture list_fails [] =
     (Thrown api_error, [],
      [ClientConnect, ClientQuery SQL_BEGIN, ClientQuery SQL_INSERT, ClientQuery SQL_SELECT,
       ListComments 7, ClientQuery SQL_ROLLBACK, ClientEnd])"
  by (rule run_list_fails)

subsection \<open>The release of the connection\<close>

text \<open>An attempt that returns has called \<open>client.end()\<close> twice, whatever the inputs.\<close>

lemma attempt_body_returned_releases:
  assumes "attempt_body timestamp p pr src oc table = (None, table', calls)"
  shows "releases calls = 2"
proof (cases "connect_err oc")
  case (Some e)
  from attempt_body_connect_fails [OF this, of timestamp p pr src table] assms show ?thesis by simp
next
  case None
  obtain r0 t0 tc where tr: "transaction timestamp p pr src oc table = (r0, t0, tc)"
    by (cases "transaction timestamp p pr src oc table") auto
  show ?thesis
  proof (cases r0)
    case (Some e)
    with attempt_body_after_throw [OF None, of timestamp p pr src table e t0 tc] tr assms
    show ?thesis by (auto split: option.splits)
  next
    case r0: None
    with transaction_cases [OF tr] obtain cs where
      tc: "tc = [ClientQuery SQL_BEGIN, ClientQuery SQL_INSERT, ClientQuery SQL_SELECT] @
          [ListComments (number pr),
           write_call (number pr)
             (combinedMessage timestamp (head_sha pr) (append_resolve p pr src oc table)) cs,
           ClientQuery SQL_COMMIT] @ [ClientEnd]"
      by auto
    from attempt_body_after_return [OF None, of timestamp p pr src table t0 tc] tr r0 assms
    have "calls = ClientConnect # tc @ [ClientEnd]" by simp
    then show ?thesis
      by (simp add: tc releases_def write_call_def split: option.splits)
  qed
qed

text \<open>
  C6, evaluated. When every call succeeds, \<open>client.end()\<close> is called twice in the
  attempt: once after \<open>COMMIT\<close> and once more in the \<open>finally\<close> block that runs after the
  \<open>return\<close>. When \<open>client.connect()\<close> throws, it is not called at all.
\<close>

theorem client_end_twice_on_success:
  "fst (processWithRetry parse_fixture timestamp_fixture params_fixture always_ok []) = Returned \<and>
   releases
     (snd (snd (processWithRetry parse_fixture timestamp_fixture params_fixture always_ok []))) = 2 \<and>
   releases
     (snd (snd (processWithRetry parse_fixture timestamp_fixture params_fixture connect_fails [])))
     = 0"
  by (simp add: run_always_ok run_connect_fails releases_def sync_calls_def)

subsection \<open>The choice of the comment\<close>

text \<open>
  C3, evaluated. The marker the code looks for is \<open>Automated Workflow Results for
  commit\<close>, without the revision. A comment of a bot written for revision \<open>000aaa\<close> does
  not contain \<open>commit abc123\<close>, yet it is the comment chosen while revision \<open>abc123\<close> is
  processed, and it is overwritten by \<open>updateComment\<close>.
\<close>

theorem botComment_other_revision:
  "head_sha pr_fixture = ''abc123'' \<and>
   body other_revision_comment = ''### Automated Workflow Results for commit 000aaa'' \<and>
   \<not> String_includes (body other_revision_comment) (''commit '' @ head_sha pr_fixture) \<and>
   botComment [other_revision_comment] = Some other_revision_comment \<and>
   processWithRetry parse_fixture timestamp_fixture params_fixture lists_other_revision [] =
     (Returned, [appended_row],
      sync_calls @
      [UpdateComment 41 (combinedMessage timestamp_fixture ''abc123'' [appended_row]),
       ClientQuery SQL_COMMIT, ClientEnd, ClientEnd])"
proof -
  have "head_sha pr_fixture = ''abc123''" by (simp add: pr_fixture_def)
  moreover have "body other_revision_comment = ''### Automated Workflow Results for commit 000aaa''"
    by (simp add: other_revision_comment_def)
  moreover have "\<not> String_includes (body other_revision_comment) (''commit '' @ head_sha pr_fixture)"
    by code_simp
  moreover have "botComment [other_revision_comment] = Some other_revision_comment"
    by code_simp
  ultimately show ?thesis using run_lists_other_revision by simp
qed

section \<open>Properties of the retry loop\<close>

lemma for_loop_past_end:
  "MAX_RETRIES < attempt \<Longrightarrow>
     for_loop timestamp p pr src ocs attempt table = (Thrown retries_failed, table, [])"
  by (simp add: for_loop.simps)

lemma for_loop_returned:
  "attempt \<le> MAX_RETRIES \<Longrightarrow>
   attempt_body timestamp p pr src (ocs attempt) table = (None, table', calls) \<Longrightarrow>
     for_loop timestamp p pr src ocs attempt table = (Returned, table', calls)"
  by (simp add: for_loop.simps)

lemma for_loop_fatal:
  "attempt \<le> MAX_RETRIES \<Longrightarrow>
   attempt_body timestamp p pr src (ocs attempt) table = (Some e, table', calls) \<Longrightarrow>
   status_truthy e \<or> \<not> is_retry_code e \<or> attempt = MAX_RETRIES \<Longrightarrow>
     for_loop timestamp p pr src ocs attempt table = (Thrown e, table', calls)"
  by (auto simp: for_loop.simps)

lemma for_loop_retry:
  "attempt < MAX_RETRIES \<Longrightarrow>
   attempt_body timestamp p pr src (ocs attempt) table = (Some e, table', calls) \<Longrightarrow>
   \<not> status_truthy e \<Longrightarrow> is_retry_code e \<Longrightarrow>
   for_loop timestamp p pr src ocs (attempt + 1) table' = (c, table'', calls') \<Longrightarrow>
     for_loop timestamp p pr src ocs attempt table =
       (c, table'', calls @ [Sleep (RETRY_DELAY * attempt)] @ calls')"
  by (simp add: for_loop.simps)

lemma for_loop_starts:
  assumes "attempt \<le> MAX_RETRIES"
  shows "\<exists>c table' rest. for_loop timestamp p pr src ocs attempt table = (c, table', ClientConnect # rest)"
proof -
  obtain r t0 calls0 where ab: "attempt_body timestamp p pr src (ocs attempt) table = (r, t0, calls0)"
    by (cases "attempt_body timestamp p pr src (ocs attempt) table") auto
  from attempt_body_starts [OF ab] obtain rest where r: "calls0 = ClientConnect # rest" by auto
  obtain c1 t1 calls1 where
    nxt: "for_loop timestamp p pr src ocs (attempt + 1) t0 = (c1, t1, calls1)"
    by (cases "for_loop timestamp p pr src ocs (attempt + 1) t0") auto
  show ?thesis
    using assms ab r nxt by (cases r) (auto simp: for_loop.simps)
qed

lemma for_loop_retry_step:
  assumes "attempt < MAX_RETRIES"
    and "attempt_body timestamp p pr src (ocs attempt) table = (Some e, t0, calls0)"
    and "\<not> status_truthy e" and "is_retry_code e"
  shows "\<exists>c1 t1 calls1.
     for_loop timestamp p pr src ocs (attempt + 1) t0 = (c1, t1, ClientConnect # calls1) \<and>
     for_loop timestamp p pr src ocs attempt table =
       (c1, t1, calls0 @ Sleep (RETRY_DELAY * attempt) # ClientConnect # calls1)"
proof -
  from assms(1) have "attempt + 1 \<le> MAX_RETRIES" by simp
  from for_loop_starts [OF this] obtain c1 t1 calls1 where
    nxt: "for_loop timestamp p pr src ocs (attempt + 1) t0 = (c1, t1, ClientConnect # calls1)"
    by blast
  from for_loop_retry [where ocs = ocs and attempt = attempt, OF assms nxt] nxt show ?thesis by simp
qed

lemma processWithRetry_for_loop:
  assumes "payload_pull_request (params_context p) = Some pr"
    and "generateSource JSON_parse (params_context p) (params_matrix p) = (src, ws)"
    and "for_loop timestamp p pr src ocs 1 table = (c, table', calls)"
  shows "processWithRetry JSON_parse timestamp p ocs table = (c, table', map Warning ws @ calls)"
  using assms by (simp add: processWithRetry_def)

lemma is_retry_code_iff:
  "is_retry_code e \<longleftrightarrow> code e \<in> {Some ''55P03'', Some ''40P01'', Some ''57014''}"
  by (auto simp: is_retry_code_def RETRY_ERROR_CODES_def split: option.splits)

lemma not_retry_code_retries_failed: "\<not> is_retry_code retries_failed"
  by (simp add: is_retry_code_def retries_failed_def)

lemma for_loop_sleeps:
  "attempt \<le> MAX_RETRIES \<Longrightarrow>
   for_loop timestamp p pr src ocs attempt table = (c, table', calls) \<Longrightarrow>
     1 \<le> attempts_made calls \<and> attempt + attempts_made calls \<le> MAX_RETRIES + 1 \<and>
     sleeps calls = map (\<lambda>n. RETRY_DELAY * n) [attempt ..< attempt + attempts_made calls - 1]"
proof (induction "MAX_RETRIES - attempt" arbitrary: attempt table c table' calls)
  case 0
  then have last: "attempt = MAX_RETRIES" by simp
  obtain r t0 calls0 where ab: "attempt_body timestamp p pr src (ocs attempt) table = (r, t0, calls0)"
    by (cases "attempt_body timestamp p pr src (ocs attempt) table") auto
  have "calls = calls0"
  proof (cases r)
    case None
    with ab "0.prems" for_loop_returned [of attempt timestamp p pr src ocs table t0 calls0]
    show ?thesis by simp
  next
    case (Some e)
    with ab "0.prems" last for_loop_fatal [of attempt timestamp p pr src ocs table e t0 calls0]
    show ?thesis by simp
  qed
  with attempt_body_one_connect [OF ab] "0.prems"(1) show ?case by simp
next
  case (Suc k)
  then have lt: "attempt < MAX_RETRIES" by simp
  obtain r t0 calls0 where ab: "attempt_body timestamp p pr src (ocs attempt) table = (r, t0, calls0)"
    by (cases "attempt_body timestamp p pr src (ocs attempt) table") auto
  note one = attempt_body_one_connect [OF ab]
  show ?case
  proof (cases r)
    case None
    with ab Suc.prems for_loop_returned [of attempt timestamp p pr src ocs table t0 calls0]
    have "calls = calls0" by simp
    with one Suc.prems(1) show ?thesis by simp
  next
    case (Some e)
    show ?thesis
    proof (cases "status_truthy e \<or> \<not> is_retry_code e")
      case True
      with Some ab Suc.prems for_loop_fatal [of attempt timestamp p pr src ocs table e t0 calls0]
      have "calls = calls0" by auto
      with one Suc.prems(1) show ?thesis by simp
    next
      case False
      obtain c1 t1 calls1 where
        nxt: "for_loop timestamp p pr src ocs (attempt + 1) t0 = (c1, t1, calls1)"
        by (cases "for_loop timestamp p pr src ocs (attempt + 1) t0") auto
      from Some ab False lt nxt
      have "for_loop timestamp p pr src ocs attempt table =
          (c1, t1, calls0 @ [Sleep (RETRY_DELAY * attempt)] @ calls1)"
        by (intro for_loop_retry) auto
      with Suc.prems(2) have cs: "calls = calls0 @ [Sleep (RETRY_DELAY * attempt)] @ calls1"
        by simp
      have k: "k = MAX_RETRIES - (attempt + 1)" using Suc.hyps(2) by simp
      have le: "attempt + 1 \<le> MAX_RETRIES" using lt by simp
      from Suc.hyps(1) [OF k le nxt]
      have ih1: "1 \<le> attempts_made calls1"
        and ih2: "attempt + 1 + attempts_made calls1 \<le> MAX_RETRIES + 1"
        and ih3: "sleeps calls1 =
          map (\<lambda>n. RETRY_DELAY * n) [attempt + 1 ..< attempt + 1 + attempts_made calls1 - 1]"
        by auto
      have am: "attempts_made calls = 1 + attempts_made calls1"
        using one by (simp add: cs attempts_made_append attempts_made_def)
      have sl: "sleeps calls = RETRY_DELAY * attempt # sleeps calls1"
        using one by (simp add: cs sleeps_append)
      have "[attempt ..< attempt + attempts_made calls - 1] =
          attempt # [attempt + 1 ..< attempt + 1 + attempts_made calls1 - 1]"
        using ih1 by (simp add: am upt_conv_Cons)
      with sl ih3 am ih1 ih2 show ?thesis by simp
    qed
  qed
qed

lemma for_loop_all_transient:
  assumes "\<forall>n. attempt \<le> n \<and> n \<le> MAX_RETRIES \<longrightarrow>
      (\<forall>t. fst (attempt_body timestamp p pr src (ocs n) t) = Some (errs n)) \<and>
      \<not> status_truthy (errs n) \<and> is_retry_code (errs n)"
    and "attempt \<le> MAX_RETRIES"
    and "for_loop timestamp p pr src ocs attempt table = (c, table', calls)"
  shows "c = Thrown (errs MAX_RETRIES) \<and> attempt + attempts_made calls = MAX_RETRIES + 1"
  using assms
proof (induction "MAX_RETRIES - attempt" arbitrary: attempt table c table' calls)
  case 0
  then have last: "attempt = MAX_RETRIES" by simp
  obtain r t0 calls0 where ab: "attempt_body timestamp p pr src (ocs attempt) table = (r, t0, calls0)"
    by (cases "attempt_body timestamp p pr src (ocs attempt) table") auto
  from "0.prems"(1) last have "fst (attempt_body timestamp p pr src (ocs attempt) table) = Some (errs attempt)"
    by simp
  with ab have r: "r = Some (errs attempt)" by simp
  from for_loop_fatal [of attempt timestamp p pr src ocs table "errs attempt" t0 calls0] ab r last "0.prems"(3)
  have "c = Thrown (errs attempt)" and "calls = calls0" by auto
  with attempt_body_one_connect [OF ab] last show ?case by simp
next
  case (Suc k)
  then have lt: "attempt < MAX_RETRIES" by simp
  obtain r t0 calls0 where ab: "attempt_body timestamp p pr src (ocs attempt) table = (r, t0, calls0)"
    by (cases "attempt_body timestamp p pr src (ocs attempt) table") auto
  from Suc.prems(1,2) have here: "fst (attempt_body timestamp p pr src (ocs attempt) table) = Some (errs attempt)"
    "\<not> status_truthy (errs attempt)" "is_retry_code (errs attempt)"
    by auto
  with ab have ab': "attempt_body timestamp p pr src (ocs attempt) table = (Some (errs attempt), t0, calls0)"
    by simp
  from for_loop_retry_step [where ocs = ocs and attempt = attempt, OF lt ab' here(2,3)] obtain c1 t1 calls1 where
    nxt: "for_loop timestamp p pr src ocs (attempt + 1) t0 = (c1, t1, ClientConnect # calls1)"
    and cur: "for_loop timestamp p pr src ocs attempt table =
       (c1, t1, calls0 @ Sleep (RETRY_DELAY * attempt) # ClientConnect # calls1)"
    by blast
  have k: "k = MAX_RETRIES - (attempt + 1)" using Suc.hyps(2) by simp
  have le: "attempt + 1 \<le> MAX_RETRIES" using lt by simp
  have hyp: "\<forall>n. attempt + 1 \<le> n \<and> n \<le> MAX_RETRIES \<longrightarrow>
      (\<forall>t. fst (attempt_body timestamp p pr src (ocs n) t) = Some (errs n)) \<and>
      \<not> status_truthy (errs n) \<and> is_retry_code (errs n)"
    using Suc.prems(1) by auto
  from Suc.hyps(1) [OF k hyp le nxt]
  have ih: "c1 = Thrown (errs MAX_RETRIES)"
    "attempt + 1 + attempts_made (ClientConnect # calls1) = MAX_RETRIES + 1" by auto
  from cur Suc.prems(3) have "c = c1"
    and cs: "calls = calls0 @ Sleep (RETRY_DELAY * attempt) # ClientConnect # calls1" by auto
  have "attempts_made calls = 1 + attempts_made (ClientConnect # calls1)"
    using attempt_body_one_connect [OF ab] by (simp add: cs attempts_made_def)
  with ih \<open>c = c1\<close> show ?case by simp
qed

lemma for_loop_first_fatal:
  assumes "\<forall>t. fst (attempt_body timestamp p pr src (ocs 1) t) = Some e"
    and "status_truthy e \<or> \<not> is_retry_code e"
    and "for_loop timestamp p pr src ocs 1 table = (c, table', calls)"
  shows "c = Thrown e \<and> attempts_made calls = 1"
proof -
  obtain r t0 calls0 where ab: "attempt_body timestamp p pr src (ocs 1) table = (r, t0, calls0)"
    by (cases "attempt_body timestamp p pr src (ocs 1) table") auto
  with assms(1) have "r = Some e" by (metis fst_conv)
  with ab have ab': "attempt_body timestamp p pr src (ocs 1) table = (Some e, t0, calls0)" by simp
  have "1 \<le> MAX_RETRIES" by (simp add: MAX_RETRIES_def)
  from for_loop_fatal [where ocs = ocs and attempt = 1, OF this ab'] assms(2,3)
  have "c = Thrown e" and "calls = calls0" by auto
  with attempt_body_one_connect [OF ab] show ?thesis by simp
qed

text \<open>
  C4. Let \<open>e\<close> be the error with which an attempt ends, that is, the error that reaches
  the outer \<open>catch\<close>: the error of the call that failed, unless \<open>ROLLBACK\<close> or
  \<open>client.end()\<close> throw while it is handled, which replaces it. An error of the GitHub
  client has a \<open>status\<close> and none of the three codes, which is how the claim counts it
  among the errors with another code; this is the third hypothesis. Then: the codes that
  count are exactly \<open>55P03\<close>, \<open>40P01\<close> and \<open>57014\<close>; before the last attempt, the loop
  sleeps and connects again exactly when the code of \<open>e\<close> is one of the three; with any
  other code, and on the last attempt, the loop ends with \<open>e\<close> and makes no further call;
  so it does for every error with a \<open>status\<close>; and from attempt \<open>n\<close> on the loop makes
  at most \<open>MAX_RETRIES + 1 - n\<close> attempts.
\<close>

theorem retry_classification:
  assumes "attempt \<le> MAX_RETRIES"
    and "attempt_body timestamp p pr src (ocs attempt) table = (Some e, t0, calls0)"
    and "status_truthy e \<longrightarrow> \<not> is_retry_code e"
  shows "(is_retry_code e \<longleftrightarrow> code e \<in> {Some ''55P03'', Some ''40P01'', Some ''57014''}) \<and>
    (attempt < MAX_RETRIES \<longrightarrow>
       ((\<exists>c1 t1 calls1. for_loop timestamp p pr src ocs attempt table =
           (c1, t1, calls0 @ Sleep (RETRY_DELAY * attempt) # ClientConnect # calls1))
        \<longleftrightarrow> code e \<in> {Some ''55P03'', Some ''40P01'', Some ''57014''})) \<and>
    (code e \<notin> {Some ''55P03'', Some ''40P01'', Some ''57014''} \<or> attempt = MAX_RETRIES \<longrightarrow>
       for_loop timestamp p pr src ocs attempt table = (Thrown e, t0, calls0)) \<and>
    (status_truthy e \<longrightarrow>
       for_loop timestamp p pr src ocs attempt table = (Thrown e, t0, calls0)) \<and>
    (\<forall>c t calls. for_loop timestamp p pr src ocs attempt table = (c, t, calls) \<longrightarrow>
       attempt + attempts_made calls \<le> MAX_RETRIES + 1) \<and>
    (connect_err (ocs attempt) = Some e0 \<longrightarrow> e = e0) \<and>
    (connect_err (ocs attempt) = None \<and> rollback_err (ocs attempt) = None \<and>
     finally_end_err (ocs attempt) = None \<and>
     fst (transaction timestamp p pr src (ocs attempt) table) = Some e0 \<longrightarrow> e = e0)"
proof -
  let ?codes = "{Some ''55P03'', Some ''40P01'', Some ''57014''}"
  let ?loop = "for_loop timestamp p pr src ocs attempt table"
  have codes: "is_retry_code e \<longleftrightarrow> code e \<in> ?codes"
    by (rule is_retry_code_iff)
  have fatal: "?loop = (Thrown e, t0, calls0)"
    if "status_truthy e \<or> \<not> is_retry_code e \<or> attempt = MAX_RETRIES"
    using for_loop_fatal [where ocs = ocs and attempt = attempt, OF assms(1,2) that] .
  have retried: "\<exists>c1 t1 calls1. ?loop =
      (c1, t1, calls0 @ Sleep (RETRY_DELAY * attempt) # ClientConnect # calls1)"
    if "attempt < MAX_RETRIES" and "is_retry_code e"
  proof -
    from that(2) assms(3) have "\<not> status_truthy e" by blast
    from for_loop_retry_step [where ocs = ocs and attempt = attempt, OF that(1) assms(2) this that(2)]
    show ?thesis by blast
  qed
  have c2: "(\<exists>c1 t1 calls1. ?loop =
           (c1, t1, calls0 @ Sleep (RETRY_DELAY * attempt) # ClientConnect # calls1))
        \<longleftrightarrow> code e \<in> ?codes" if lt: "attempt < MAX_RETRIES"
  proof
    assume "\<exists>c1 t1 calls1. ?loop =
           (c1, t1, calls0 @ Sleep (RETRY_DELAY * attempt) # ClientConnect # calls1)"
    then obtain c1 t1 calls1 where l: "?loop =
           (c1, t1, calls0 @ Sleep (RETRY_DELAY * attempt) # ClientConnect # calls1)" by blast
    show "code e \<in> ?codes"
    proof (rule ccontr)
      assume "code e \<notin> ?codes"
      with codes have "\<not> is_retry_code e" by simp
      with fatal have "?loop = (Thrown e, t0, calls0)" by blast
      with l show False by simp
    qed
  next
    assume "code e \<in> ?codes"
    with codes retried [OF lt] show "\<exists>c1 t1 calls1. ?loop =
           (c1, t1, calls0 @ Sleep (RETRY_DELAY * attempt) # ClientConnect # calls1)" by blast
  qed
  have c3: "?loop = (Thrown e, t0, calls0)" if "code e \<notin> ?codes \<or> attempt = MAX_RETRIES"
    using that codes fatal by blast
  have c4: "?loop = (Thrown e, t0, calls0)" if "status_truthy e"
    using that fatal by blast
  have c5: "attempt + attempts_made calls \<le> MAX_RETRIES + 1" if "?loop = (c, t, calls)" for c t calls
    using for_loop_sleeps [OF assms(1) that] by blast
  have c6: "e = e0" if "connect_err (ocs attempt) = Some e0"
    using attempt_body_connect_fails [OF that, of timestamp p pr src table] assms(2) by simp
  have c7: "e = e0" if h: "connect_err (ocs attempt) = None \<and> rollback_err (ocs attempt) = None \<and>
     finally_end_err (ocs attempt) = None \<and>
     fst (transaction timestamp p pr src (ocs attempt) table) = Some e0"
  proof -
    obtain t1 tc where "transaction timestamp p pr src (ocs attempt) table = (Some e0, t1, tc)"
      using h by (cases "transaction timestamp p pr src (ocs attempt) table") auto
    from attempt_body_after_throw [OF _ this] h assms(2) show ?thesis by simp
  qed
  from codes c2 c3 c4 c5 c6 c7 show ?thesis by blast
qed

theorem retry_classification_witness:
  "for_loop timestamp_fixture params_fixture pr_fixture ''ci/test'' syntax_fails 1 [] =
     (Thrown syntax_error, [],
      [ClientConnect, ClientQuery SQL_BEGIN, ClientQuery SQL_INSERT, ClientQuery SQL_ROLLBACK,
       ClientEnd]) \<and>
   for_loop timestamp_fixture params_fixture pr_fixture ''ci/test'' list_fails 1 [] =
     (Thrown api_error, [], sync_calls @ [ClientQuery SQL_ROLLBACK, ClientEnd]) \<and>
   code lock_error = Some ''55P03'' \<and>
   (\<exists>c1 t1 calls1.
      for_loop timestamp_fixture params_fixture pr_fixture ''ci/test'' always_locked 1 [] =
        (c1, t1, locked_calls @ Sleep (RETRY_DELAY * 1) # ClientConnect # calls1)) \<and>
   for_loop timestamp_fixture params_fixture pr_fixture ''ci/test'' always_locked MAX_RETRIES [] =
     (Thrown lock_error, [], locked_calls)"
proof -
  have one: "(1::nat) \<le> MAX_RETRIES" "(1::nat) < MAX_RETRIES" by (simp_all add: MAX_RETRIES_def)
  have lock: "code lock_error = Some ''55P03''" by (simp add: lock_error_def)
  have syn: "code syntax_error \<notin> {Some ''55P03'', Some ''40P01'', Some ''57014''}"
    by (simp add: syntax_error_def)
  have h1: "status_truthy syntax_error \<longrightarrow> \<not> is_retry_code syntax_error"
    using syntax_error_fatal by simp
  have h2: "status_truthy api_error \<longrightarrow> \<not> is_retry_code api_error"
    using api_error_fatal by simp
  have h3: "status_truthy lock_error \<longrightarrow> \<not> is_retry_code lock_error"
    using lock_error_transient by simp
  note a = retry_classification [where ocs = syntax_fails and attempt = 1,
      OF one(1) attempt_body_syntax_fails h1, of timestamp_fixture params_fixture pr_fixture
      "''ci/test''" "[]"]
  note b = retry_classification [where ocs = list_fails and attempt = 1,
      OF one(1) attempt_body_api_error h2]
  note c = retry_classification [where ocs = always_locked and attempt = 1,
      OF one(1) attempt_body_locked h3, of timestamp_fixture params_fixture pr_fixture
      "''ci/test''" "[]"]
  note d = retry_classification [where ocs = always_locked and attempt = MAX_RETRIES,
      OF order_refl attempt_body_locked h3, of timestamp_fixture params_fixture pr_fixture
      "''ci/test''" "[]"]
  from a syn
  have r1: "for_loop timestamp_fixture params_fixture pr_fixture ''ci/test'' syntax_fails 1 [] =
     (Thrown syntax_error, [],
      [ClientConnect, ClientQuery SQL_BEGIN, ClientQuery SQL_INSERT, ClientQuery SQL_ROLLBACK,
       ClientEnd])" by blast
  from b api_error_fatal
  have r2: "for_loop timestamp_fixture params_fixture pr_fixture ''ci/test'' list_fails 1 [] =
     (Thrown api_error, [], sync_calls @ [ClientQuery SQL_ROLLBACK, ClientEnd])" by blast
  from c one(2) lock
  have r3: "\<exists>c1 t1 calls1.
      for_loop timestamp_fixture params_fixture pr_fixture ''ci/test'' always_locked 1 [] =
        (c1, t1, locked_calls @ Sleep (RETRY_DELAY * 1) # ClientConnect # calls1)" by blast
  from d
  have r4: "for_loop timestamp_fixture params_fixture pr_fixture ''ci/test'' always_locked
      MAX_RETRIES [] = (Thrown lock_error, [], locked_calls)" by blast
  from r1 r2 lock r3 r4 show ?thesis by blast
qed

text \<open>
  The third hypothesis excludes a shape that neither client produces: an error with both
  a \<open>status\<close> and one of the three codes. The \<open>status\<close> is tested first, so such an error
  would be thrown after one attempt.
\<close>

lemma status_is_tested_first:
  "code api_error_with_code = Some ''55P03'' \<and>
   processWithRetry parse_fixture timestamp_fixture params_fixture list_fails_with_code [] =
     (Thrown api_error_with_code, [],
      [ClientConnect, ClientQuery SQL_BEGIN, ClientQuery SQL_INSERT, ClientQuery SQL_SELECT,
       ListComments 7, ClientQuery SQL_ROLLBACK, ClientEnd])"
  using run_list_fails_with_code by (simp add: api_error_with_code_def)

text \<open>
  The counts of attempts of C5. When every attempt fails with an error that is retried,
  the loop makes \<open>MAX_RETRIES = 3\<close> attempts; the error it then throws is the error of
  the last attempt, which is not the error \<open>Failed after 3 attempts\<close>. When the first
  attempt fails with an error that is not retried, the loop makes one attempt and throws
  that error.
\<close>

theorem retry_bound:
  assumes "payload_pull_request (params_context p) = Some pr"
    and "generateSource JSON_parse (params_context p) (params_matrix p) = (src, ws)"
    and "processWithRetry JSON_parse timestamp p ocs table = (c, table', calls)"
  shows "((\<forall>n \<in> {1..MAX_RETRIES}.
             (\<forall>t. fst (attempt_body timestamp p pr src (ocs n) t) = Some (errs n)) \<and>
             \<not> status_truthy (errs n) \<and> is_retry_code (errs n))
          \<longrightarrow> attempts_made calls = MAX_RETRIES \<and> MAX_RETRIES = 3 \<and>
              c = Thrown (errs MAX_RETRIES) \<and> c \<noteq> Thrown retries_failed) \<and>
         ((\<forall>t. fst (attempt_body timestamp p pr src (ocs 1) t) = Some e) \<and>
          (status_truthy e \<or> \<not> is_retry_code e)
          \<longrightarrow> attempts_made calls = 1 \<and> c = Thrown e)"
proof -
  obtain c0 t0 calls0 where fl: "for_loop timestamp p pr src ocs 1 table = (c0, t0, calls0)"
    by (cases "for_loop timestamp p pr src ocs 1 table") auto
  from processWithRetry_for_loop [OF assms(1,2) fl] assms(3)
  have c: "c = c0" and calls: "calls = map Warning ws @ calls0" by auto
  have am: "attempts_made calls = attempts_made calls0"
    by (simp add: calls attempts_made_Warning)
  have one: "(1::nat) \<le> MAX_RETRIES" by (simp add: MAX_RETRIES_def)
  show ?thesis
  proof (intro conjI impI)
    assume h: "\<forall>n \<in> {1..MAX_RETRIES}.
             (\<forall>t. fst (attempt_body timestamp p pr src (ocs n) t) = Some (errs n)) \<and>
             \<not> status_truthy (errs n) \<and> is_retry_code (errs n)"
    then have h': "\<forall>n. 1 \<le> n \<and> n \<le> MAX_RETRIES \<longrightarrow>
      (\<forall>t. fst (attempt_body timestamp p pr src (ocs n) t) = Some (errs n)) \<and>
      \<not> status_truthy (errs n) \<and> is_retry_code (errs n)" by auto
    from for_loop_all_transient [OF h' one fl]
    have r: "c0 = Thrown (errs MAX_RETRIES)" "1 + attempts_made calls0 = MAX_RETRIES + 1" by auto
    from r(2) am show "attempts_made calls = MAX_RETRIES" by simp
    show "MAX_RETRIES = 3" by (simp add: MAX_RETRIES_def)
    from r(1) c show "c = Thrown (errs MAX_RETRIES)" by simp
    from h one have "is_retry_code (errs MAX_RETRIES)" by auto
    with not_retry_code_retries_failed have "errs MAX_RETRIES \<noteq> retries_failed" by auto
    with r(1) c show "c \<noteq> Thrown retries_failed" by simp
  next
    assume h: "(\<forall>t. fst (attempt_body timestamp p pr src (ocs 1) t) = Some e) \<and>
          (status_truthy e \<or> \<not> is_retry_code e)"
    with for_loop_first_fatal [OF _ _ fl, of e] have "c0 = Thrown e \<and> attempts_made calls0 = 1"
      by blast
    with c am show "attempts_made calls = 1" and "c = Thrown e" by auto
  qed
qed

theorem retry_bound_witness:
  "fst (processWithRetry parse_fixture timestamp_fixture params_fixture always_locked []) =
     Thrown lock_error \<and>
   attempts_made
     (snd (snd (processWithRetry parse_fixture timestamp_fixture params_fixture always_locked [])))
     = 3 \<and>
   fst (processWithRetry parse_fixture timestamp_fixture params_fixture syntax_fails []) =
     Thrown syntax_error \<and>
   attempts_made
     (snd (snd (processWithRetry parse_fixture timestamp_fixture params_fixture syntax_fails [])))
     = 1"
proof -
  note a = retry_bound [where errs = "\<lambda>n. lock_error" and e = syntax_error,
      OF payload_fixture source_fixture run_always_locked]
  note b = retry_bound [where errs = "\<lambda>n. lock_error" and e = syntax_error,
      OF payload_fixture source_fixture run_syntax_fails]
  have "attempts_made (locked_calls @ [Sleep 1000] @ locked_calls @ [Sleep 2000] @ locked_calls)
      = MAX_RETRIES \<and> MAX_RETRIES = 3"
    using a attempt_body_locked lock_error_transient by simp
  moreover have "attempts_made [ClientConnect, ClientQuery SQL_BEGIN, ClientQuery SQL_INSERT,
      ClientQuery SQL_ROLLBACK, ClientEnd] = 1"
    using b attempt_body_syntax_fails syntax_error_fatal by simp
  ultimately show ?thesis
    by (simp add: run_always_locked run_syntax_fails)
qed

text \<open>
  C5, evaluated. After a lock timeout in each of the three attempts, the error thrown is
  the lock timeout of the third attempt: on the last attempt the \<open>catch\<close> does not
  continue and falls through to \<open>throw error\<close>, so the statement after the loop, which
  throws \<open>Failed after 3 attempts\<close>, is never reached.
\<close>

theorem retries_exhausted_not_reported:
  "fst (processWithRetry parse_fixture timestamp_fixture params_fixture always_locked []) =
     Thrown lock_error \<and>
   lock_error \<noteq> retries_failed \<and>
   attempts_made
     (snd (snd (processWithRetry parse_fixture timestamp_fixture params_fixture always_locked [])))
     = MAX_RETRIES"
  by (simp add: run_always_locked lock_error_def retries_failed_def attempts_made_def
      locked_calls_def MAX_RETRIES_def)

text \<open>
  C9. \<open>RETRY_DELAY\<close> is 1000. In a run of \<open>processWithRetry\<close>, the sleeps are, in order,
  \<open>RETRY_DELAY * 1\<close>, \<open>RETRY_DELAY * 2\<close>, ..., one less than the attempts made. After an
  attempt \<open>n < MAX_RETRIES\<close> that fails with an error that is retried, the loop sleeps
  \<open>RETRY_DELAY * n\<close> milliseconds and then connects for the next attempt.
\<close>

theorem retry_delay_linear:
  "RETRY_DELAY = 1000 \<and>
   (processWithRetry JSON_parse timestamp p ocs table = (c, table', calls) \<longrightarrow>
      sleeps calls = map (\<lambda>n. RETRY_DELAY * n) [1 ..< attempts_made calls]) \<and>
   (attempt < MAX_RETRIES \<and>
    attempt_body timestamp p pr src (ocs attempt) tbl = (Some e, t0, calls0) \<and>
    \<not> status_truthy e \<and> is_retry_code e \<longrightarrow>
      (\<exists>c1 t1 calls1. for_loop timestamp p pr src ocs attempt tbl =
         (c1, t1, calls0 @ Sleep (RETRY_DELAY * attempt) # ClientConnect # calls1)))"
proof (intro conjI impI)
  show "RETRY_DELAY = 1000" by (simp add: RETRY_DELAY_def)
next
  assume pw: "processWithRetry JSON_parse timestamp p ocs table = (c, table', calls)"
  show "sleeps calls = map (\<lambda>n. RETRY_DELAY * n) [1 ..< attempts_made calls]"
  proof (cases "payload_pull_request (params_context p)")
    case None
    with pw have "calls = []" by (simp add: processWithRetry_def)
    then show ?thesis by (simp add: attempts_made_def)
  next
    case (Some pr')
    obtain src' ws where gs: "generateSource JSON_parse (params_context p) (params_matrix p) = (src', ws)"
      by (cases "generateSource JSON_parse (params_context p) (params_matrix p)") auto
    obtain c0 t0' calls0' where fl: "for_loop timestamp p pr' src' ocs 1 table = (c0, t0', calls0')"
      by (cases "for_loop timestamp p pr' src' ocs 1 table") auto
    from processWithRetry_for_loop [OF Some gs fl] pw
    have calls: "calls = map Warning ws @ calls0'" by auto
    have one: "(1::nat) \<le> MAX_RETRIES" by (simp add: MAX_RETRIES_def)
    from for_loop_sleeps [OF one fl]
    have "1 \<le> attempts_made calls0'" and
      "sleeps calls0' = map (\<lambda>n. RETRY_DELAY * n) [1 ..< 1 + attempts_made calls0' - 1]"
      by auto
    then show ?thesis by (simp add: calls sleeps_Warning attempts_made_Warning)
  qed
next
  assume "attempt < MAX_RETRIES \<and>
    attempt_body timestamp p pr src (ocs attempt) tbl = (Some e, t0, calls0) \<and>
    \<not> status_truthy e \<and> is_retry_code e"
  then show "\<exists>c1 t1 calls1. for_loop timestamp p pr src ocs attempt tbl =
         (c1, t1, calls0 @ Sleep (RETRY_DELAY * attempt) # ClientConnect # calls1)"
    using for_loop_retry_step [where ocs = ocs and attempt = attempt and table = tbl] by blast
qed

theorem retry_delay_linear_witness:
  "sleeps (snd (snd (processWithRetry parse_fixture timestamp_fixture params_fixture
      always_locked []))) = [1000, 2000] \<and>
   sleeps (snd (snd (processWithRetry parse_fixture timestamp_fixture params_fixture
      locked_once []))) = [1000] \<and>
   (\<exists>c1 t1 calls1.
      for_loop timestamp_fixture params_fixture pr_fixture ''ci/test'' always_locked 2 [] =
        (c1, t1, locked_calls @ Sleep 2000 # ClientConnect # calls1))"
proof -
  note a = retry_delay_linear [where ocs = always_locked and attempt = 2 and tbl = "[]"
      and pr = pr_fixture and src = "''ci/test''" and e = lock_error and ?t0.0 = "[]"
      and ?calls0.0 = locked_calls
      and p = params_fixture and timestamp = timestamp_fixture and JSON_parse = parse_fixture
      and table = "[]" and c = "Thrown lock_error" and table' = "[]"
      and calls = "locked_calls @ [Sleep 1000] @ locked_calls @ [Sleep 2000] @ locked_calls"]
  note b = retry_delay_linear [where ocs = locked_once
      and p = params_fixture and timestamp = timestamp_fixture and JSON_parse = parse_fixture
      and table = "[]", OF ]
  have am: "attempts_made (locked_calls @ [Sleep 1000] @ locked_calls @ [Sleep 2000] @ locked_calls) = 3"
    by (simp add: attempts_made_def locked_calls_def)
  have two: "(2::nat) < MAX_RETRIES" by (simp add: MAX_RETRIES_def)
  have upt: "[1 ..< (3::nat)] = [1, 2]" by (simp add: upt_rec)
  from a have rd: "RETRY_DELAY = 1000" by (rule conjunct1)
  from a run_always_locked
  have "sleeps (locked_calls @ [Sleep 1000] @ locked_calls @ [Sleep 2000] @ locked_calls) =
      map (\<lambda>n. RETRY_DELAY * n)
        [1 ..< attempts_made
           (locked_calls @ [Sleep 1000] @ locked_calls @ [Sleep 2000] @ locked_calls)]"
    by blast
  then have s1: "sleeps (locked_calls @ [Sleep 1000] @ locked_calls @ [Sleep 2000] @ locked_calls) =
      [1000, 2000]" by (simp only: am upt) (simp add: RETRY_DELAY_def)
  from a two attempt_body_locked [of timestamp_fixture params_fixture pr_fixture "''ci/test''" 2 "[]"]
    lock_error_transient
  have "\<exists>c1 t1 calls1.
      for_loop timestamp_fixture params_fixture pr_fixture ''ci/test'' always_locked 2 [] =
        (c1, t1, locked_calls @ Sleep (RETRY_DELAY * 2) # ClientConnect # calls1)" by blast
  then have s3: "\<exists>c1 t1 calls1.
      for_loop timestamp_fixture params_fixture pr_fixture ''ci/test'' always_locked 2 [] =
        (c1, t1, locked_calls @ Sleep 2000 # ClientConnect # calls1)"
    by (simp add: RETRY_DELAY_def)
  have s2: "sleeps (snd (snd (processWithRetry parse_fixture timestamp_fixture params_fixture
      locked_once []))) = [1000]"
    by (simp add: run_locked_once sleeps_append locked_calls_def sync_calls_def)
  from s1 s2 s3 show ?thesis by (simp add: run_always_locked)
qed

section \<open>Properties of the older variant\<close>

text \<open>
  The older loop retries an error of any code, with the same linear delay, and throws the
  error of the last attempt.
\<close>

lemma processWithRetry_legacy_retries:
  assumes "attempt < MAX_RETRIES" and "thrown attempt = Some e"
  shows "\<exists>c calls. processWithRetry_legacy thrown attempt =
     (c, Sleep (RETRY_DELAY * attempt) # calls)"
proof -
  obtain c calls where "processWithRetry_legacy thrown (attempt + 1) = (c, calls)"
    by (cases "processWithRetry_legacy thrown (attempt + 1)") auto
  with assms show ?thesis
    by (simp add: processWithRetry_legacy.simps [of thrown attempt])
qed

lemma processWithRetry_legacy_last:
  assumes "thrown MAX_RETRIES = Some e"
  shows "processWithRetry_legacy thrown MAX_RETRIES = (Thrown e, [])"
  using assms by (simp add: processWithRetry_legacy.simps [of thrown MAX_RETRIES])

end
